theory Spec2Isabelle
  imports Complex_Main "HOL-Library.Multiset"
begin

section \<open>Strings\<close>

text \<open>
  JavaScript strings are sequences of UTF-16 code units. The model uses \<open>string\<close> and
  reads each \<open>char\<close> as a code unit below 256 (the Latin-1 range), on which
  \<open>String.prototype.trim\<close> and \<open>String.prototype.toLowerCase\<close> are written out.
\<close>

definition isWhiteSpace :: "char \<Rightarrow> bool" where
  \<comment> \<open>the code units below 256 that \<open>trim\<close> strips: TAB, LF, VT, FF, CR, SP, NBSP\<close>
  "isWhiteSpace c \<longleftrightarrow> (of_char c :: nat) \<in> {9, 10, 11, 12, 13, 32, 160}"

definition trim :: "string \<Rightarrow> string" where
  "trim s = rev (dropWhile isWhiteSpace (rev (dropWhile isWhiteSpace s)))"

definition isUpper :: "char \<Rightarrow> bool" where
  \<comment> \<open>A..Z, and the Latin-1 capitals U+00C0..U+00DE without the multiplication sign U+00D7\<close>
  "isUpper c \<longleftrightarrow>
     (let n = (of_char c :: nat)
      in (65 \<le> n \<and> n \<le> 90) \<or> (192 \<le> n \<and> n \<le> 222 \<and> n \<noteq> 215))"

definition lowerChar :: "char \<Rightarrow> char" where
  "lowerChar c = (if isUpper c then char_of ((of_char c :: nat) + 32) else c)"

definition toLowerCase :: "string \<Rightarrow> string" where
  "toLowerCase s = map lowerChar s"

definition splitFirst :: "string \<Rightarrow> string" where
  \<comment> \<open>\<open>s.split(' ')[0]\<close>: the text before the first space, all of \<open>s\<close> when it has none\<close>
  "splitFirst s = takeWhile (\<lambda>c. c \<noteq> CHR '' '') s"


section \<open>Cards and the state of the practice view\<close>

record flashcard =
  name :: string
  nicknames :: "string list option"
  photo_url :: "string option"

definition hasPhoto :: "flashcard \<Rightarrow> bool" where
  \<comment> \<open>truthiness of \<open>c.photo_url\<close>: neither null nor the empty string\<close>
  "hasPhoto c = (case photo_url c of None \<Rightarrow> False | Some u \<Rightarrow> u \<noteq> [])"

definition practiceCardsOf :: "flashcard list \<Rightarrow> flashcard list" where
  "practiceCardsOf flashcards = filter hasPhoto flashcards"

datatype difficulty = First | Full

datatype gameMode = Classic | Timed | Rocket

datatype feedback = Correct | Nickname | Incorrect

datatype timeout = BoostOff | AutoAdvance

record stats =
  correct :: nat
  total' :: nat

text \<open>
  The \<open>useState\<close> variables of \<open>PracticeView\<close> that the practice logic reads or writes.
  \<open>currentIndex\<close> is a JavaScript number: \<open>None\<close> stands for \<open>NaN\<close>, the value of
  \<open>x % 0\<close>. \<open>startTime\<close> is \<open>null\<close> or a \<open>Date.now()\<close> value in milliseconds.
  \<open>timers\<close> holds the callbacks passed to \<open>setTimeout\<close> that have not run yet, with
  their delays. \<open>practiceCards\<close> is the memoised list of the cards with a photo.
\<close>

record view =
  practiceCards :: "flashcard list"
  currentIndex :: "nat option"
  guess :: string
  feedback :: "feedback option"
  showAnswer :: bool
  stats :: stats
  shuffledIndices :: "nat list"
  difficulty :: difficulty
  lastGuess :: string
  correctionInput :: string
  correctionComplete :: bool
  editingPracticeMnemonic :: bool
  practiceMnemonicText :: string
  gameMode :: gameMode
  startTime :: "nat option"
  elapsedTime :: nat
  rocketHeight :: real
  rocketCrashed :: bool
  rocketBoosting :: bool
  timers :: "(nat \<times> timeout) list"

datatype error = TypeError

definition isSessionComplete :: "view \<Rightarrow> bool" where
  "isSessionComplete s \<longleftrightarrow>
     (total' (stats s) > 0 \<and> total' (stats s) \<ge> length (practiceCards s)) \<or> rocketCrashed s"

definition at_index :: "'a list \<Rightarrow> nat option \<Rightarrow> 'a option" where
  \<comment> \<open>\<open>xs[i]\<close>: undefined (here \<open>None\<close>) out of range and at \<open>NaN\<close>\<close>
  "at_index xs i =
     (case i of None \<Rightarrow> None | Some k \<Rightarrow> if k < length xs then Some (xs ! k) else None)"

definition currentCoworker :: "view \<Rightarrow> flashcard option" where
  "currentCoworker s =
     (let actualIndex =
            (if length (shuffledIndices s) > 0 then at_index (shuffledIndices s) (currentIndex s)
             else currentIndex s)
      in at_index (practiceCards s) actualIndex)"

definition js_mod :: "nat \<Rightarrow> nat \<Rightarrow> nat option" where
  \<comment> \<open>\<open>a % b\<close> on non-negative integers; \<open>NaN\<close> when \<open>b\<close> is 0\<close>
  "js_mod a b = (if b = 0 then None else Some (a mod b))"

definition nextIndex :: "nat \<Rightarrow> nat option \<Rightarrow> nat option" where
  \<comment> \<open>the updater \<open>prev => (prev + 1) % practiceCards.length\<close>\<close>
  "nextIndex n prev = (case prev of None \<Rightarrow> None | Some i \<Rightarrow> js_mod (i + 1) n)"

definition falsyTime :: "nat option \<Rightarrow> bool" where
  \<comment> \<open>\<open>!startTime\<close>: null or 0\<close>
  "falsyTime t = (case t of None \<Rightarrow> True | Some v \<Rightarrow> v = 0)"


section \<open>Checking a guess (PracticeView)\<close>

definition guessLower :: "view \<Rightarrow> string" where
  "guessLower s = trim (toLowerCase (guess s))"

definition targetOf :: "difficulty \<Rightarrow> flashcard \<Rightarrow> string" where
  "targetOf d c =
     (let fullName = trim (toLowerCase (name c));
          firstName = splitFirst fullName
      in if d = First then firstName else fullName)"

definition lowerNicknames :: "flashcard \<Rightarrow> string list" where
  \<comment> \<open>\<open>(currentCoworker.nicknames || []).map(n => n.toLowerCase())\<close>\<close>
  "lowerNicknames c = map toLowerCase (case nicknames c of None \<Rightarrow> [] | Some ns \<Rightarrow> ns)"

definition isCorrect :: "flashcard \<Rightarrow> view \<Rightarrow> bool" where
  "isCorrect c s \<longleftrightarrow> guessLower s = targetOf (difficulty s) c"

definition isNicknameMatch :: "flashcard \<Rightarrow> view \<Rightarrow> bool" where
  "isNicknameMatch c s \<longleftrightarrow>
     \<not> isCorrect c s \<and> difficulty s = First \<and> guessLower s \<in> set (lowerNicknames c)"

definition startTimer :: "nat \<Rightarrow> view \<Rightarrow> view" where
  "startTimer now s =
     (if gameMode s = Timed \<and> falsyTime (startTime s) then s\<lparr>startTime := Some now\<rparr> else s)"

definition rocketBoost :: "view \<Rightarrow> view" where
  \<comment> \<open>the Rocket branch of a right answer; the two \<open>setTimeout\<close> callbacks are queued\<close>
  "rocketBoost s =
     s\<lparr>rocketHeight := min 100 (rocketHeight s + 20),
       rocketBoosting := True,
       timers := timers s @ [(500, BoostOff), (800, AutoAdvance)]\<rparr>"

definition rocketPenalty :: "view \<Rightarrow> view" where
  \<comment> \<open>the Rocket branch of a wrong answer\<close>
  "rocketPenalty s =
     (let newHeight = max 0 (rocketHeight s - 15)
      in s\<lparr>rocketHeight := newHeight,
           rocketCrashed := (if newHeight \<le> 0 then True else rocketCrashed s)\<rparr>)"

definition checkGuessOn :: "flashcard \<Rightarrow> nat \<Rightarrow> view \<Rightarrow> view" where
  "checkGuessOn c now s =
     (let s1 = startTimer now s;
          s2 = s1\<lparr>lastGuess := trim (guess s), correctionInput := [], correctionComplete := False,
                  editingPracticeMnemonic := False, practiceMnemonicText := []\<rparr>;
          s3 = (if isCorrect c s \<or> isNicknameMatch c s then
                  (let s' = s2\<lparr>feedback := Some (if isNicknameMatch c s then Nickname else Correct),
                                stats := \<lparr>correct = correct (stats s2) + 1,
                                          total' = total' (stats s2) + 1\<rparr>\<rparr>
                   in if gameMode s = Rocket then rocketBoost s' else s')
                else
                  (let s' = s2\<lparr>feedback := Some Incorrect,
                                stats := (stats s2)\<lparr>total' := total' (stats s2) + 1\<rparr>\<rparr>
                   in if gameMode s = Rocket then rocketPenalty s' else s'))
      in s3\<lparr>showAnswer := True\<rparr>)"

definition checkGuess :: "nat \<Rightarrow> view \<Rightarrow> error + view" where
  \<comment> \<open>reading \<open>currentCoworker.name\<close> throws when there is no current card\<close>
  "checkGuess now s =
     (case currentCoworker s of None \<Rightarrow> Inl TypeError | Some c \<Rightarrow> Inr (checkGuessOn c now s))"



section \<open>Checking a guess (SharedDeckPage)\<close>

text \<open>
  The guest view keeps the same state variables under the same names; its \<open>checkGuess\<close>
  reads and writes no state of the page beyond them.
\<close>

definition SharedDeckPage_checkGuessOn :: "flashcard \<Rightarrow> nat \<Rightarrow> view \<Rightarrow> view" where
  "SharedDeckPage_checkGuessOn c now s =
     (let guessLower = trim (toLowerCase (guess s));
          fullName = trim (toLowerCase (name c));
          firstName = splitFirst fullName;
          nicks = map toLowerCase (case nicknames c of None \<Rightarrow> [] | Some ns \<Rightarrow> ns);
          target = (if difficulty s = First then firstName else fullName);
          isCorrect = (guessLower = target);
          isNicknameMatch = (\<not> isCorrect \<and> difficulty s = First \<and> guessLower \<in> set nicks);
          s1 = (if gameMode s = Timed \<and> falsyTime (startTime s) then s\<lparr>startTime := Some now\<rparr>
                else s);
          s2 = s1\<lparr>lastGuess := trim (guess s), correctionInput := [],
                  correctionComplete := False\<rparr>;
          s3 = (if isCorrect \<or> isNicknameMatch then
                  (let s' = s2\<lparr>feedback := Some (if isNicknameMatch then Nickname else Correct),
                                stats := \<lparr>correct = correct (stats s2) + 1,
                                          total' = total' (stats s2) + 1\<rparr>\<rparr>
                   in if gameMode s = Rocket then
                        s'\<lparr>rocketHeight := min 100 (rocketHeight s' + 20),
                           rocketBoosting := True,
                           timers := timers s' @ [(500, BoostOff), (800, AutoAdvance)]\<rparr>
                      else s')
                else
                  (let s' = s2\<lparr>feedback := Some Incorrect,
                                stats := (stats s2)\<lparr>total' := total' (stats s2) + 1\<rparr>\<rparr>
                   in if gameMode s = Rocket then
                        (let newHeight = max 0 (rocketHeight s' - 15)
                         in s'\<lparr>rocketHeight := newHeight,
                               rocketCrashed := (if newHeight \<le> 0 then True
                                                 else rocketCrashed s')\<rparr>)
                      else s'))
      in s3\<lparr>showAnswer := True\<rparr>)"

definition SharedDeckPage_checkGuess :: "nat \<Rightarrow> view \<Rightarrow> error + view" where
  "SharedDeckPage_checkGuess now s =
     (case currentCoworker s of None \<Rightarrow> Inl TypeError
      | Some c \<Rightarrow> Inr (SharedDeckPage_checkGuessOn c now s))"


section \<open>The other handlers of PracticeView\<close>

definition resetCardState :: "view \<Rightarrow> view" where
  "resetCardState s =
     s\<lparr>guess := [], feedback := None, showAnswer := False, lastGuess := [],
       correctionInput := [], correctionComplete := False,
       editingPracticeMnemonic := False, practiceMnemonicText := []\<rparr>"

definition nextCard :: "view \<Rightarrow> view" where
  "nextCard s =
     (resetCardState s)\<lparr>currentIndex := nextIndex (length (practiceCards s)) (currentIndex s)\<rparr>"

definition randomIndex :: "real \<Rightarrow> nat \<Rightarrow> nat" where
  \<comment> \<open>\<open>Math.floor(Math.random() * (i + 1))\<close>, for the value \<open>x\<close> that \<open>Math.random()\<close> returned\<close>
  "randomIndex x i = nat \<lfloor>x * real (i + 1)\<rfloor>"

definition swap :: "nat \<Rightarrow> nat \<Rightarrow> nat list \<Rightarrow> nat list" where
  \<comment> \<open>\<open>[indices[i], indices[j]] = [indices[j], indices[i]]\<close>\<close>
  "swap i j xs = (xs[i := xs ! j])[j := xs ! i]"

text \<open>
  The loop \<open>for (let i = indices.length - 1; i > 0; i--)\<close>. \<open>rand k\<close> is the value of the
  \<open>k\<close>-th call of \<open>Math.random()\<close> in this shuffle. The loop counter is a natural
  number: on the empty array the source starts at \<open>-1\<close> and the model at \<open>0\<close>, and
  neither runs the body. \<open>Math.random()\<close> returns a value in \<open>[0, 1)\<close>, which keeps
  the index \<open>j\<close> within \<open>[0, i]\<close>; outside that contract the source would write past
  the end of the array, and the model says nothing about the entries read there.
\<close>

fun fisherYates :: "(nat \<Rightarrow> real) \<Rightarrow> nat \<Rightarrow> nat \<Rightarrow> nat list \<Rightarrow> nat list" where
  "fisherYates rand k 0 indices = indices"
| "fisherYates rand k (Suc i) indices =
     fisherYates rand (Suc k) i (swap (Suc i) (randomIndex (rand k) (Suc i)) indices)"

definition shuffleCards :: "(nat \<Rightarrow> real) \<Rightarrow> view \<Rightarrow> view" where
  "shuffleCards rand s =
     (let n = length (practiceCards s);
          indices = fisherYates rand 0 (n - 1) [0..<n]
      in resetCardState (s\<lparr>shuffledIndices := indices, currentIndex := Some 0\<rparr>))"

definition revealClick :: "view \<Rightarrow> view" where
  \<comment> \<open>the \<open>onClick\<close> of the Reveal button\<close>
  "revealClick s =
     s\<lparr>showAnswer := True, feedback := Some Incorrect, lastGuess := [], correctionInput := [],
       correctionComplete := False, stats := (stats s)\<lparr>total' := total' (stats s) + 1\<rparr>\<rparr>"

datatype key = Enter | KeyR | OtherKey

definition handleKeyDown :: "key \<Rightarrow> view \<Rightarrow> view" where
  \<comment> \<open>the window listener, for a key pressed outside an input or textarea\<close>
  "handleKeyDown k s =
     (if showAnswer s then
        (if k = Enter then
           (if feedback s = Some Correct \<or> feedback s = Some Nickname \<or> correctionComplete s
            then nextCard s else s)
         else s)
      else
        (if k = KeyR then
           s\<lparr>showAnswer := True, feedback := Some Incorrect, lastGuess := [],
             correctionInput := [], correctionComplete := False,
             stats := (stats s)\<lparr>total' := total' (stats s) + 1\<rparr>\<rparr>
         else s))"

definition handleRocketCrash :: "view \<Rightarrow> view" where
  "handleRocketCrash s = s\<lparr>rocketCrashed := True, rocketHeight := 0\<rparr>"

definition gravityActive :: "view \<Rightarrow> bool" where
  "gravityActive s \<longleftrightarrow>
     gameMode s = Rocket \<and> \<not> showAnswer s \<and> \<not> rocketCrashed s \<and> \<not> isSessionComplete s"

definition restartPractice :: "(nat \<Rightarrow> real) \<Rightarrow> view \<Rightarrow> view" where
  \<comment> \<open>the score-submission flags it also clears are not part of the model\<close>
  "restartPractice rand s =
     shuffleCards rand
       (s\<lparr>stats := \<lparr>correct = 0, total' = 0\<rparr>, startTime := None, elapsedTime := 0,
          rocketHeight := 50, rocketCrashed := False, rocketBoosting := False\<rparr>)"

definition handleGameModeChange :: "gameMode \<Rightarrow> (nat \<Rightarrow> real) \<Rightarrow> view \<Rightarrow> view" where
  "handleGameModeChange newMode rand s =
     (if newMode \<noteq> gameMode s then restartPractice rand (s\<lparr>gameMode := newMode\<rparr>) else s)"

definition getTargetName :: "view \<Rightarrow> string" where
  "getTargetName s =
     (case currentCoworker s of None \<Rightarrow> []
      | Some c \<Rightarrow>
          (let fullName = trim (name c);
               firstName = splitFirst fullName
           in if difficulty s = First then firstName else fullName))"

definition checkCorrection :: "string \<Rightarrow> view \<Rightarrow> bool" where
  "checkCorrection input s \<longleftrightarrow>
     (let target = toLowerCase (getTargetName s) in trim (toLowerCase input) = target)"

definition handleCorrectionChange :: "string \<Rightarrow> view \<Rightarrow> view" where
  "handleCorrectionChange v s =
     s\<lparr>correctionInput := v, correctionComplete := checkCorrection v s\<rparr>"

definition runTimeout :: "timeout \<Rightarrow> view \<Rightarrow> view" where
  \<comment> \<open>the two callbacks that \<open>checkGuess\<close> passes to \<open>setTimeout\<close>\<close>
  "runTimeout t s =
     (case t of
        BoostOff \<Rightarrow> s\<lparr>rocketBoosting := False\<rparr>
      | AutoAdvance \<Rightarrow>
          s\<lparr>guess := [], feedback := None, showAnswer := False, lastGuess := [],
            correctionInput := [], correctionComplete := False,
            currentIndex := nextIndex (length (practiceCards s)) (currentIndex s)\<rparr>)"


section \<open>What PracticeView renders, and its events\<close>

datatype screen = NoCards | Complete | Active

definition screen :: "view \<Rightarrow> screen" where
  \<comment> \<open>the early returns of the component, for a view that has finished loading\<close>
  "screen s =
     (if length (practiceCards s) = 0 then NoCards
      else if isSessionComplete s then Complete
      else Active)"

definition keyHandlerInstalled :: "view \<Rightarrow> bool" where
  \<comment> \<open>the guard of the keyboard effect\<close>
  "keyHandlerInstalled s \<longleftrightarrow> currentCoworker s \<noteq> None \<and> \<not> isSessionComplete s"

definition nextDisabled :: "view \<Rightarrow> bool" where
  \<comment> \<open>the \<open>disabled\<close> attribute of the Next Card button\<close>
  "nextDisabled s \<longleftrightarrow>
     feedback s = Some Incorrect \<and> \<not> correctionComplete s \<and> gameMode s = Classic"

definition correctionShown :: "view \<Rightarrow> bool" where
  \<comment> \<open>the correction field and its skip link are rendered\<close>
  "correctionShown s \<longleftrightarrow>
     screen s = Active \<and> showAnswer s \<and> feedback s = Some Incorrect \<and> gameMode s = Classic"

definition runCheckGuess :: "nat \<Rightarrow> view \<Rightarrow> view" where
  \<comment> \<open>an exception thrown by the handler leaves the state as it was\<close>
  "runCheckGuess now s = (case checkGuess now s of Inl e \<Rightarrow> s | Inr s' \<Rightarrow> s')"

text \<open>
  The events of the practice view. An event on an element that is not rendered, or on a
  disabled button, changes nothing. \<open>GuessEnter\<close> and \<open>ClickCheck\<close> carry the value
  of \<open>Date.now()\<close>; the events that shuffle carry the values of \<open>Math.random()\<close>.
  \<open>Fire k\<close> runs the \<open>k\<close>-th pending timeout, \<open>OnCrash\<close> is the \<open>onCrash\<close> call of
  the rocket canvas. Editing a memory tip only touches the two mnemonic fields and is
  left out.
\<close>

datatype event =
    ChangeGuess string
  | GuessEnter nat
  | ClickCheck nat
  | ClickReveal
  | KeyDown key
  | ChangeCorrection string
  | CorrectionEnter
  | ClickSkip
  | ClickNext
  | ClickShuffle "nat \<Rightarrow> real"
  | ClickMode gameMode "nat \<Rightarrow> real"
  | ChangeDifficulty difficulty
  | ClickTryAgain "nat \<Rightarrow> real"
  | Fire nat
  | OnCrash

definition step :: "event \<Rightarrow> view \<Rightarrow> view" where
  "step e s =
     (case e of
        ChangeGuess v \<Rightarrow> if screen s = Active \<and> \<not> showAnswer s then s\<lparr>guess := v\<rparr> else s
      | GuessEnter now \<Rightarrow>
          if screen s = Active \<and> \<not> showAnswer s \<and> guess s \<noteq> [] then runCheckGuess now s else s
      | ClickCheck now \<Rightarrow>
          if screen s = Active \<and> \<not> showAnswer s \<and> guess s \<noteq> [] then runCheckGuess now s else s
      | ClickReveal \<Rightarrow> if screen s = Active \<and> \<not> showAnswer s then revealClick s else s
      | KeyDown k \<Rightarrow> if keyHandlerInstalled s then handleKeyDown k s else s
      | ChangeCorrection v \<Rightarrow> if correctionShown s then handleCorrectionChange v s else s
      | CorrectionEnter \<Rightarrow> if correctionShown s \<and> correctionComplete s then nextCard s else s
      | ClickSkip \<Rightarrow> if correctionShown s then nextCard s else s
      | ClickNext \<Rightarrow>
          if screen s = Active \<and> showAnswer s \<and> \<not> nextDisabled s then nextCard s else s
      | ClickShuffle rand \<Rightarrow> if screen s = Active then shuffleCards rand s else s
      | ClickMode m rand \<Rightarrow> if screen s = Active then handleGameModeChange m rand s else s
      | ChangeDifficulty d \<Rightarrow> if screen s = Active then s\<lparr>difficulty := d\<rparr> else s
      | ClickTryAgain rand \<Rightarrow> if screen s = Complete then restartPractice rand s else s
      | Fire k \<Rightarrow>
          if k < length (timers s)
          then runTimeout (snd (timers s ! k)) (s\<lparr>timers := take k (timers s) @ drop (Suc k) (timers s)\<rparr>)
          else s
      | OnCrash \<Rightarrow>
          if screen s = Active \<and> gameMode s = Rocket \<and> gravityActive s \<and> \<not> rocketCrashed s
          then handleRocketCrash s else s)"

fun runEvents :: "event list \<Rightarrow> view \<Rightarrow> view" where
  "runEvents [] s = s"
| "runEvents (e # es) s = runEvents es (step e s)"

definition order :: "view \<Rightarrow> nat list" where
  \<comment> \<open>the order in which \<open>currentCoworker\<close> walks the cards: the shuffle, or else the identity\<close>
  "order s =
     (if length (shuffledIndices s) > 0 then shuffledIndices s
      else [0..<length (practiceCards s)])"


definition sessionInv :: "flashcard list \<Rightarrow> view \<Rightarrow> bool" where
  \<comment> \<open>what every state reached from \<open>initialView cards\<close> satisfies\<close>
  "sessionInv cards s \<longleftrightarrow>
     practiceCards s = cards \<and>
     correct (stats s) \<le> total' (stats s) \<and>
     total' (stats s) \<le> length cards \<and>
     (rocketCrashed s \<longrightarrow> gameMode s = Rocket \<and> cards \<noteq> []) \<and>
     (shuffledIndices s = [] \<or> length (shuffledIndices s) = length cards)"


section \<open>The rocket canvas\<close>

definition GRAVITY_RATE :: real where "GRAVITY_RATE = 8"
definition BASE_BOOST :: real where "BASE_BOOST = 20"
definition BOOST_MULTIPLIER_MAX :: real where "BOOST_MULTIPLIER_MAX = 5 / 2"
definition BOOST_MULTIPLIER_MIN :: real where "BOOST_MULTIPLIER_MIN = 1"
definition STARTING_ALTITUDE :: real where "STARTING_ALTITUDE = 50"
definition LERP_SPEED_UP :: real where "LERP_SPEED_UP = 8"
definition LERP_SPEED_DOWN :: real where "LERP_SPEED_DOWN = 12"

text \<open>
  The props of \<open>RocketGame\<close> that the animation loop reads, and its refs. Numbers are
  real numbers: the rounding of IEEE doubles is not modelled.
\<close>

record rocketProps =
  rocketHeightProp :: real
  boosting :: bool
  crashed :: bool
  gravityActiveProp :: bool

record rocket =
  currentHeight :: real
  visualHeight :: real
  lastBoosting :: bool
  frameCount :: nat

record frameOut =
  crashCalls :: nat
  boostApplied :: "real option"

definition mountRocket :: "real \<Rightarrow> rocket" where
  \<comment> \<open>the initial values of the refs, from the \<open>rocketHeight\<close> prop at mount\<close>
  "mountRocket h = \<lparr>currentHeight = h, visualHeight = h, lastBoosting = False, frameCount = 0\<rparr>"

definition resetEffect :: "real \<Rightarrow> rocket \<Rightarrow> rocket" where
  \<comment> \<open>the effect that runs when the \<open>rocketHeight\<close> prop changes\<close>
  "resetEffect h r =
     (if h = STARTING_ALTITUDE \<and> currentHeight r < 10
      then r\<lparr>currentHeight := STARTING_ALTITUDE, visualHeight := STARTING_ALTITUDE\<rparr>
      else r)"

definition clampDelta :: "real \<Rightarrow> real" where
  \<comment> \<open>\<open>if (deltaTime > 0.1) deltaTime = 0.016\<close>\<close>
  "clampDelta deltaTime = (if deltaTime > 1 / 10 then 16 / 1000 else deltaTime)"

definition applyGravity :: "rocketProps \<Rightarrow> real \<Rightarrow> real \<Rightarrow> real \<times> nat" where
  \<comment> \<open>the new height and the number of \<open>onCrash\<close> calls\<close>
  "applyGravity p deltaTime h =
     (if gravityActiveProp p \<and> \<not> crashed p then
        (let h' = h - GRAVITY_RATE * deltaTime
         in if h' \<le> 0 then (0, 1) else (h', 0))
      else (h, 0))"

definition boostMultiplier :: "real \<Rightarrow> real" where
  "boostMultiplier h =
     BOOST_MULTIPLIER_MAX - (h / 100) * (BOOST_MULTIPLIER_MAX - BOOST_MULTIPLIER_MIN)"

definition applyBoost :: "rocketProps \<Rightarrow> bool \<Rightarrow> real \<Rightarrow> real \<times> real option" where
  \<comment> \<open>the new height and, when a boost fires, its amount\<close>
  "applyBoost p lastB h =
     (if boosting p \<and> \<not> lastB then
        (let boostAmount = BASE_BOOST * boostMultiplier h
         in (min 100 (h + boostAmount), Some boostAmount))
      else (h, None))"

definition smoothVisual :: "real \<Rightarrow> real \<Rightarrow> real \<Rightarrow> real" where
  \<comment> \<open>the new visual height, from the actual height, the old visual height and the time step\<close>
  "smoothVisual actual visual deltaTime =
     (let heightDiff = actual - visual
      in if \<bar>heightDiff\<bar> > 1 / 10 then
           (let lerpSpeed = (if heightDiff > 0 then LERP_SPEED_UP else LERP_SPEED_DOWN)
            in visual + heightDiff * lerpSpeed * deltaTime)
         else actual)"

definition render :: "rocketProps \<Rightarrow> real \<Rightarrow> rocket \<Rightarrow> rocket \<times> frameOut" where
  \<comment> \<open>one run of the animation callback; \<open>elapsed\<close> is \<open>(now - lastTime) / 1000\<close>\<close>
  "render p elapsed r =
     (let deltaTime = clampDelta elapsed;
          (h1, calls) = applyGravity p deltaTime (currentHeight r);
          (h2, boost) = applyBoost p (lastBoosting r) h1
      in (\<lparr>currentHeight = h2,
           visualHeight = smoothVisual h2 (visualHeight r) deltaTime,
           lastBoosting = boosting p,
           frameCount = frameCount r + 1\<rparr>,
          \<lparr>crashCalls = calls, boostApplied = boost\<rparr>))"

fun renders :: "(rocketProps \<times> real) list \<Rightarrow> rocket \<times> nat \<Rightarrow> rocket \<times> nat" where
  \<comment> \<open>consecutive ticks; the second component counts the boosts that fired\<close>
  "renders [] acc = acc"
| "renders ((p, elapsed) # ts) (r, n) =
     (let (r', out) = render p elapsed r
      in renders ts (r', n + (case boostApplied out of None \<Rightarrow> 0 | Some a \<Rightarrow> 1)))"

definition propsOf :: "view \<Rightarrow> rocketProps" where
  \<comment> \<open>the props that PracticeView passes to the canvas\<close>
  "propsOf s =
     \<lparr>rocketHeightProp = rocketHeight s, boosting = rocketBoosting s,
      crashed = rocketCrashed s, gravityActiveProp = gravityActive s\<rparr>"

text \<open>
  One animation frame of the canvas inside PracticeView: the callback runs on the props of
  the current state of the view, \<open>onCrash\<close> is \<open>handleRocketCrash\<close>, and the view has
  rendered again before the next frame.
\<close>

definition frame :: "real \<Rightarrow> view \<times> rocket \<Rightarrow> (view \<times> rocket) \<times> frameOut" where
  "frame elapsed vr =
     (let s = fst vr;
          (r', out) = render (propsOf s) elapsed (snd vr);
          s' = (if crashCalls out > 0 then handleRocketCrash s else s);
          r'' = (if rocketHeight s' \<noteq> rocketHeight s then resetEffect (rocketHeight s') r'
                 else r')
      in ((s', r''), out))"

fun frames :: "real list \<Rightarrow> (view \<times> rocket) \<times> nat \<Rightarrow> (view \<times> rocket) \<times> nat" where
  \<comment> \<open>consecutive frames; the second component counts the \<open>onCrash\<close> calls\<close>
  "frames [] acc = acc"
| "frames (elapsed # es) (vr, n) =
     (let (vr', out) = frame elapsed vr in frames es (vr', n + crashCalls out))"


section \<open>Initial state and sample data\<close>

definition initialView :: "flashcard list \<Rightarrow> view" where
  \<comment> \<open>the arguments of the \<open>useState\<close> calls\<close>
  "initialView cards =
     \<lparr>practiceCards = cards, currentIndex = Some 0, guess = [], feedback = None,
      showAnswer = False, stats = \<lparr>correct = 0, total' = 0\<rparr>, shuffledIndices = [],
      difficulty = First, lastGuess = [], correctionInput = [], correctionComplete = False,
      editingPracticeMnemonic = False, practiceMnemonicText = [], gameMode = Classic,
      startTime = None, elapsedTime = 0, rocketHeight = 50, rocketCrashed = False,
      rocketBoosting = False, timers = []\<rparr>"

definition janeDoe :: flashcard where
  "janeDoe = \<lparr>name = ''Jane Doe'', nicknames = Some [''janie''], photo_url = Some ''jane.png''\<rparr>"

definition janeView :: "difficulty \<Rightarrow> string \<Rightarrow> view" where
  \<comment> \<open>a one-card session on Jane Doe with the given difficulty and typed guess\<close>
  "janeView d g = (initialView [janeDoe])\<lparr>difficulty := d, guess := g\<rparr>"



definition rocketView :: "real \<Rightarrow> string \<Rightarrow> view" where
  \<comment> \<open>the session on Jane Doe in Rocket mode at the given altitude, with the given typed guess\<close>
  "rocketView h g = (janeView First g)\<lparr>gameMode := Rocket, rocketHeight := h\<rparr>"


definition johnRoe :: flashcard where
  "johnRoe = \<lparr>name = ''John Roe'', nicknames = None, photo_url = Some ''john.png''\<rparr>"

definition gateView :: view where
  \<comment> \<open>a Classic session on two cards, after the wrong guess ``doe'' on Jane Doe\<close>
  "gateView =
     (initialView [janeDoe, johnRoe])
       \<lparr>guess := ''doe'', lastGuess := ''doe'', feedback := Some Incorrect, showAnswer := True,
        stats := \<lparr>correct = 0, total' = 1\<rparr>\<rparr>"


definition boostProps :: rocketProps where
  \<comment> \<open>the props while the answer to a right guess is shown: boosting, gravity off\<close>
  "boostProps =
     \<lparr>rocketHeightProp = 70, boosting = True, crashed = False, gravityActiveProp = False\<rparr>"

definition lowRocket :: rocket where
  \<comment> \<open>a canvas whose altitude has decayed to 1\<close>
  "lowRocket = (mountRocket 50)\<lparr>currentHeight := 1, visualHeight := 1\<rparr>"


section \<open>Properties of the string functions\<close>

lemma isWhiteSpace_lowerChar: "isWhiteSpace (lowerChar c) = isWhiteSpace c"
  by (auto simp: isWhiteSpace_def lowerChar_def isUpper_def Let_def)

lemma trim_toLowerCase: "trim (toLowerCase s) = toLowerCase (trim s)"
proof -
  have comp: "isWhiteSpace \<circ> lowerChar = isWhiteSpace"
    by (rule ext) (simp add: isWhiteSpace_lowerChar)
  have drop: "dropWhile isWhiteSpace (map lowerChar xs) = map lowerChar (dropWhile isWhiteSpace xs)"
    for xs
    by (simp add: dropWhile_map comp)
  show ?thesis
    unfolding trim_def toLowerCase_def
    by (simp add: rev_map drop)
qed


section \<open>Guess classification\<close>

lemma feedback_rocketBoost: "feedback (rocketBoost s) = feedback s"
  by (simp add: rocketBoost_def)

lemma feedback_rocketPenalty: "feedback (rocketPenalty s) = feedback s"
  by (simp add: rocketPenalty_def Let_def)

lemma feedback_checkGuessOn:
  "feedback (checkGuessOn c now s) =
     Some (if isCorrect c s then Correct else if isNicknameMatch c s then Nickname else Incorrect)"
  by (simp add: checkGuessOn_def Let_def feedback_rocketBoost feedback_rocketPenalty
      isNicknameMatch_def)

lemma member_lowerNicknames:
  "g \<in> set (lowerNicknames c) \<longleftrightarrow>
     (\<exists>n \<in> set (case nicknames c of None \<Rightarrow> [] | Some ns \<Rightarrow> ns). toLowerCase n = g)"
  by (auto simp: lowerNicknames_def)

text \<open>
  Claim C1. For every card, difficulty and raw input, \<open>checkGuess\<close> classifies as follows.
  The input is trimmed and lowercased. The target is taken from the trimmed, lowercased
  name of the card (the local variable \<open>fullName\<close> of \<open>checkGuess\<close>): its part before
  the first space at difficulty \<open>First\<close>, all of it otherwise. The feedback is
  \<open>Correct\<close> iff the input equals the target; otherwise \<open>Nickname\<close> iff the difficulty is
  \<open>First\<close> and the input equals the lowercased form of some nickname; otherwise
  \<open>Incorrect\<close>. At difficulty \<open>Full\<close> the nicknames are never consulted.
\<close>

theorem checkGuess_classification:
  assumes "currentCoworker s = Some c"
  shows "\<exists>s'. checkGuess now s = Inr s' \<and>
     (let input = toLowerCase (trim (guess s));
          fullName = toLowerCase (trim (name c));
          target = (if difficulty s = First then splitFirst fullName else fullName);
          nicks = (case nicknames c of None \<Rightarrow> [] | Some ns \<Rightarrow> ns)
      in feedback s' =
           Some (if input = target then Correct
                 else if difficulty s = First \<and> (\<exists>n \<in> set nicks. toLowerCase n = input)
                      then Nickname
                 else Incorrect))"
proof -
  have run: "checkGuess now s = Inr (checkGuessOn c now s)"
    using assms by (simp add: checkGuess_def)
  have inp: "guessLower s = toLowerCase (trim (guess s))"
    by (simp add: guessLower_def trim_toLowerCase)
  have tgt: "targetOf (difficulty s) c =
      (if difficulty s = First then splitFirst (toLowerCase (trim (name c)))
       else toLowerCase (trim (name c)))"
    by (simp add: targetOf_def Let_def trim_toLowerCase)
  have cor: "isCorrect c s \<longleftrightarrow> toLowerCase (trim (guess s)) = targetOf (difficulty s) c"
    by (simp add: isCorrect_def inp)
  have nick: "isNicknameMatch c s \<longleftrightarrow>
      \<not> isCorrect c s \<and> difficulty s = First \<and>
      (\<exists>n \<in> set (case nicknames c of None \<Rightarrow> [] | Some ns \<Rightarrow> ns).
          toLowerCase n = toLowerCase (trim (guess s)))"
    by (simp add: isNicknameMatch_def member_lowerNicknames inp)
  show ?thesis
    unfolding run
    by (rule exI [of _ "checkGuessOn c now s"])
       (simp add: feedback_checkGuessOn cor nick tgt Let_def)
qed

lemma currentCoworker_janeView: "currentCoworker (janeView d g) = Some janeDoe"
  by (simp add: currentCoworker_def janeView_def initialView_def at_index_def)

lemma lower_samples:
  "toLowerCase ''Jane Doe'' = ''jane doe''" "toLowerCase ''jane'' = ''jane''"
  "toLowerCase ''janie'' = ''janie''" "toLowerCase ''doe'' = ''doe''"
  by code_simp+

lemma trim_samples:
  "trim ''Jane Doe'' = ''Jane Doe''" "trim ''jane'' = ''jane''"
  "trim ''janie'' = ''janie''" "trim ''doe'' = ''doe''"
  by (simp_all add: trim_def isWhiteSpace_def)

theorem checkGuess_classification_witness:
  "currentCoworker (janeView First ''jane'') = Some janeDoe \<and>
   (\<exists>s'. checkGuess 0 (janeView First ''jane'') = Inr s' \<and> feedback s' = Some Correct) \<and>
   (\<exists>s'. checkGuess 0 (janeView First ''janie'') = Inr s' \<and> feedback s' = Some Nickname) \<and>
   (\<exists>s'. checkGuess 0 (janeView First ''doe'') = Inr s' \<and> feedback s' = Some Incorrect) \<and>
   (\<exists>s'. checkGuess 0 (janeView Full ''janie'') = Inr s' \<and> feedback s' = Some Incorrect)"
proof -
  have sel: "guess (janeView d g) = g" "difficulty (janeView d g) = d" for d g
    by (simp_all add: janeView_def)
  have card: "name janeDoe = ''Jane Doe''" "nicknames janeDoe = Some [''janie'']"
    by (simp_all add: janeDoe_def)
  show ?thesis
    using checkGuess_classification [where s = "janeView First ''jane''" and c = janeDoe and now = 0]
      checkGuess_classification [where s = "janeView First ''janie''" and c = janeDoe and now = 0]
      checkGuess_classification [where s = "janeView First ''doe''" and c = janeDoe and now = 0]
      checkGuess_classification [where s = "janeView Full ''janie''" and c = janeDoe and now = 0]
    by (simp add: currentCoworker_janeView sel card lower_samples trim_samples splitFirst_def)
qed

section \<open>The two copies of checkGuess\<close>

lemma SharedDeckPage_checkGuessOn_eq:
  "SharedDeckPage_checkGuessOn c now s =
     (checkGuessOn c now s)\<lparr>editingPracticeMnemonic := editingPracticeMnemonic s,
                             practiceMnemonicText := practiceMnemonicText s\<rparr>"
  by (simp add: SharedDeckPage_checkGuessOn_def checkGuessOn_def Let_def isCorrect_def
      isNicknameMatch_def guessLower_def targetOf_def lowerNicknames_def startTimer_def
      rocketBoost_def rocketPenalty_def)

lemma checkGuessOn_right:
  assumes "isCorrect c s \<or> isNicknameMatch c s"
  shows "stats (checkGuessOn c now s) =
           \<lparr>correct = correct (stats s) + 1, total' = total' (stats s) + 1\<rparr>"
    and "gameMode s = Rocket \<Longrightarrow> rocketHeight (checkGuessOn c now s) = min 100 (rocketHeight s + 20)"
    and "gameMode s = Rocket \<Longrightarrow> rocketBoosting (checkGuessOn c now s)"
    and "gameMode s = Rocket \<Longrightarrow>
           timers (checkGuessOn c now s) = timers s @ [(500, BoostOff), (800, AutoAdvance)]"
    and "rocketCrashed (checkGuessOn c now s) = rocketCrashed s"
  using assms
  by (auto simp: checkGuessOn_def Let_def startTimer_def rocketBoost_def)

lemma checkGuessOn_wrong:
  assumes "\<not> (isCorrect c s \<or> isNicknameMatch c s)"
  shows "stats (checkGuessOn c now s) =
           \<lparr>correct = correct (stats s), total' = total' (stats s) + 1\<rparr>"
    and "gameMode s = Rocket \<Longrightarrow> rocketHeight (checkGuessOn c now s) = max 0 (rocketHeight s - 15)"
    and "gameMode s = Rocket \<Longrightarrow>
           rocketCrashed (checkGuessOn c now s) \<longleftrightarrow> rocketCrashed s \<or> rocketHeight s \<le> 15"
    and "timers (checkGuessOn c now s) = timers s"
  using assms
  by (auto simp: checkGuessOn_def Let_def startTimer_def rocketPenalty_def)

lemma checkGuessOn_not_rocket:
  assumes "gameMode s \<noteq> Rocket"
  shows "rocketHeight (checkGuessOn c now s) = rocketHeight s"
    and "rocketCrashed (checkGuessOn c now s) = rocketCrashed s"
    and "rocketBoosting (checkGuessOn c now s) = rocketBoosting s"
    and "timers (checkGuessOn c now s) = timers s"
  using assms
  by (auto simp: checkGuessOn_def Let_def startTimer_def)

lemma runTimeout_AutoAdvance:
  "currentIndex (runTimeout AutoAdvance s) = nextIndex (length (practiceCards s)) (currentIndex s)"
  "feedback (runTimeout AutoAdvance s) = None"
  "showAnswer (runTimeout AutoAdvance s) = False"
  by (simp_all add: runTimeout_def)

text \<open>
  Claim C10. The \<open>checkGuess\<close> of the guest view returns what the \<open>checkGuess\<close> of the
  owner view returns, up to the two memory-tip fields that only the owner view clears: it
  throws on the same states, and otherwise gives the same feedback, the same statistics
  and the same rocket state and pending timeouts. For both, a right answer adds one to
  both counters, and in Rocket mode raises the altitude by 20, at most to 100, and
  queues the automatic advance; a wrong answer adds one to the total only, and in Rocket
  mode lowers the altitude by 15, at least to 0, and sets the crashed flag when 0 is reached.
\<close>

theorem checkGuess_views_agree:
  "SharedDeckPage_checkGuess now s =
     map_sum id (\<lambda>p. p\<lparr>editingPracticeMnemonic := editingPracticeMnemonic s,
                        practiceMnemonicText := practiceMnemonicText s\<rparr>) (checkGuess now s)
   \<and> (\<forall>c. currentCoworker s = Some c \<longrightarrow>
        (let p = checkGuessOn c now s; q = SharedDeckPage_checkGuessOn c now s;
             right = (isCorrect c s \<or> isNicknameMatch c s)
         in checkGuess now s = Inr p \<and> SharedDeckPage_checkGuess now s = Inr q
            \<and> feedback q = feedback p \<and> stats q = stats p
            \<and> rocketHeight q = rocketHeight p \<and> rocketCrashed q = rocketCrashed p
            \<and> rocketBoosting q = rocketBoosting p \<and> timers q = timers p
            \<and> showAnswer q = showAnswer p
            \<and> feedback p = Some (if isCorrect c s then Correct
                                  else if isNicknameMatch c s then Nickname else Incorrect)
            \<and> stats p = \<lparr>correct = correct (stats s) + (if right then 1 else 0),
                          total' = total' (stats s) + 1\<rparr>
            \<and> (gameMode s = Rocket \<and> right \<longrightarrow>
                  rocketHeight p = min 100 (rocketHeight s + 20) \<and> rocketBoosting p
                  \<and> timers p = timers s @ [(500, BoostOff), (800, AutoAdvance)]
                  \<and> currentIndex (runTimeout AutoAdvance p) =
                      nextIndex (length (practiceCards s)) (currentIndex s))
            \<and> (gameMode s = Rocket \<and> \<not> right \<longrightarrow>
                  rocketHeight p = max 0 (rocketHeight s - 15)
                  \<and> (rocketCrashed p \<longleftrightarrow> rocketCrashed s \<or> rocketHeight s \<le> 15))
            \<and> (gameMode s \<noteq> Rocket \<longrightarrow>
                  rocketHeight p = rocketHeight s \<and> rocketCrashed p = rocketCrashed s
                  \<and> timers p = timers s)))"
proof (intro conjI allI impI)
  show "SharedDeckPage_checkGuess now s =
     map_sum id (\<lambda>p. p\<lparr>editingPracticeMnemonic := editingPracticeMnemonic s,
                        practiceMnemonicText := practiceMnemonicText s\<rparr>) (checkGuess now s)"
    by (simp add: SharedDeckPage_checkGuess_def checkGuess_def SharedDeckPage_checkGuessOn_eq
        split: option.splits)
next
  fix c
  assume c: "currentCoworker s = Some c"
  have keep: "currentIndex (checkGuessOn c now s) = currentIndex s"
    "practiceCards (checkGuessOn c now s) = practiceCards s"
    by (simp_all add: checkGuessOn_def Let_def startTimer_def rocketBoost_def rocketPenalty_def)
  show "let p = checkGuessOn c now s; q = SharedDeckPage_checkGuessOn c now s;
            right = (isCorrect c s \<or> isNicknameMatch c s)
        in checkGuess now s = Inr p \<and> SharedDeckPage_checkGuess now s = Inr q
            \<and> feedback q = feedback p \<and> stats q = stats p
            \<and> rocketHeight q = rocketHeight p \<and> rocketCrashed q = rocketCrashed p
            \<and> rocketBoosting q = rocketBoosting p \<and> timers q = timers p
            \<and> showAnswer q = showAnswer p
            \<and> feedback p = Some (if isCorrect c s then Correct
                                  else if isNicknameMatch c s then Nickname else Incorrect)
            \<and> stats p = \<lparr>correct = correct (stats s) + (if right then 1 else 0),
                          total' = total' (stats s) + 1\<rparr>
            \<and> (gameMode s = Rocket \<and> right \<longrightarrow>
                  rocketHeight p = min 100 (rocketHeight s + 20) \<and> rocketBoosting p
                  \<and> timers p = timers s @ [(500, BoostOff), (800, AutoAdvance)]
                  \<and> currentIndex (runTimeout AutoAdvance p) =
                      nextIndex (length (practiceCards s)) (currentIndex s))
            \<and> (gameMode s = Rocket \<and> \<not> right \<longrightarrow>
                  rocketHeight p = max 0 (rocketHeight s - 15)
                  \<and> (rocketCrashed p \<longleftrightarrow> rocketCrashed s \<or> rocketHeight s \<le> 15))
            \<and> (gameMode s \<noteq> Rocket \<longrightarrow>
                  rocketHeight p = rocketHeight s \<and> rocketCrashed p = rocketCrashed s
                  \<and> timers p = timers s)"
  proof (cases "isCorrect c s \<or> isNicknameMatch c s")
    case True
    then show ?thesis
      using c checkGuessOn_right [OF True, of now] checkGuessOn_not_rocket [of s c now]
      by (simp add: Let_def SharedDeckPage_checkGuess_def checkGuess_def
          SharedDeckPage_checkGuessOn_eq feedback_checkGuessOn runTimeout_AutoAdvance keep)
  next
    case False
    then show ?thesis
      using c checkGuessOn_wrong [OF False, of now] checkGuessOn_not_rocket [of s c now]
      by (simp add: Let_def SharedDeckPage_checkGuess_def checkGuess_def
          SharedDeckPage_checkGuessOn_eq feedback_checkGuessOn runTimeout_AutoAdvance keep)
  qed
qed

lemma rocketView_fields:
  "guess (rocketView h g) = g" "difficulty (rocketView h g) = First"
  "gameMode (rocketView h g) = Rocket" "rocketHeight (rocketView h g) = h"
  "rocketCrashed (rocketView h g) = False" "timers (rocketView h g) = []"
  "stats (rocketView h g) = \<lparr>correct = 0, total' = 0\<rparr>"
  "showAnswer (rocketView h g) = False" "practiceCards (rocketView h g) = [janeDoe]"
  "rocketBoosting (rocketView h g) = False" "feedback (rocketView h g) = None"
  by (simp_all add: rocketView_def janeView_def initialView_def)

lemma currentCoworker_rocketView: "currentCoworker (rocketView h g) = Some janeDoe"
  by (simp add: currentCoworker_def rocketView_def janeView_def initialView_def at_index_def)

lemma targetOf_janeDoe:
  "targetOf First janeDoe = ''jane''" "targetOf Full janeDoe = ''jane doe''"
  by (simp_all add: targetOf_def janeDoe_def lower_samples trim_def isWhiteSpace_def
      splitFirst_def)

lemma lowerNicknames_janeDoe: "lowerNicknames janeDoe = [''janie'']"
  by (simp add: lowerNicknames_def janeDoe_def lower_samples)

lemma judge_rocketView:
  "isCorrect janeDoe (rocketView h ''jane'')" "\<not> isNicknameMatch janeDoe (rocketView h ''jane'')"
  "\<not> isCorrect janeDoe (rocketView h ''doe'')" "\<not> isNicknameMatch janeDoe (rocketView h ''doe'')"
  by (simp_all add: isCorrect_def isNicknameMatch_def guessLower_def rocketView_fields
      targetOf_janeDoe lowerNicknames_janeDoe lower_samples trim_samples)

theorem checkGuess_views_agree_witness:
  "currentCoworker (rocketView 90 ''jane'') = Some janeDoe \<and>
   (\<exists>q. SharedDeckPage_checkGuess 0 (rocketView 90 ''jane'') = Inr q \<and>
        checkGuess 0 (rocketView 90 ''jane'') = Inr q \<and>
        feedback q = Some Correct \<and> stats q = \<lparr>correct = 1, total' = 1\<rparr> \<and>
        rocketHeight q = 100 \<and> timers q = [(500, BoostOff), (800, AutoAdvance)]) \<and>
   (\<exists>q. SharedDeckPage_checkGuess 0 (rocketView 10 ''doe'') = Inr q \<and>
        checkGuess 0 (rocketView 10 ''doe'') = Inr q \<and>
        feedback q = Some Incorrect \<and> stats q = \<lparr>correct = 0, total' = 1\<rparr> \<and>
        rocketHeight q = 0 \<and> rocketCrashed q)"
proof -
  have same: "p\<lparr>editingPracticeMnemonic := editingPracticeMnemonic (rocketView h g),
               practiceMnemonicText := practiceMnemonicText (rocketView h g)\<rparr> = p"
    if "p = checkGuessOn janeDoe 0 (rocketView h g)" for p h g
    unfolding that
    by (simp add: checkGuessOn_def Let_def startTimer_def rocketBoost_def rocketPenalty_def
        rocketView_def janeView_def initialView_def)
  show ?thesis
    using checkGuess_views_agree [of 0 "rocketView 90 ''jane''"]
      checkGuess_views_agree [of 0 "rocketView 10 ''doe''"]
    by (simp add: currentCoworker_rocketView judge_rocketView rocketView_fields Let_def same)
qed

section \<open>Reveal\<close>

lemma screen_rocketView: "screen (rocketView h g) = Active"
  by (simp add: screen_def isSessionComplete_def rocketView_fields)

lemma keyHandlerInstalled_rocketView: "keyHandlerInstalled (rocketView h g)"
  by (simp add: keyHandlerInstalled_def isSessionComplete_def rocketView_fields
      currentCoworker_rocketView)

lemma runCheckGuess_rocketView_doe:
  "runCheckGuess now (rocketView h ''doe'') = checkGuessOn janeDoe now (rocketView h ''doe'')"
  by (simp add: runCheckGuess_def checkGuess_def currentCoworker_rocketView)

text \<open>
  Against claim C5 as stated. In Rocket mode at altitude 50, with ``doe'' typed for Jane
  Doe: the Reveal button and the r key leave the altitude at 50, not at 50 - 15, while
  checking the wrong guess lowers it to 35. At altitude 10 the wrong guess crashes the
  rocket and Reveal does not.
\<close>

theorem reveal_penalty_counterexample:
  "rocketHeight (step ClickReveal (rocketView 50 ''doe'')) = 50 \<and>
   rocketHeight (step ClickReveal (rocketView 50 ''doe''))
     \<noteq> max 0 (rocketHeight (rocketView 50 ''doe'') - 15) \<and>
   rocketHeight (step (KeyDown KeyR) (rocketView 50 ''doe'')) = 50 \<and>
   feedback (step (ClickCheck 0) (rocketView 50 ''doe'')) = Some Incorrect \<and>
   rocketHeight (step (ClickCheck 0) (rocketView 50 ''doe'')) = 35 \<and>
   \<not> rocketCrashed (step ClickReveal (rocketView 10 ''doe'')) \<and>
   rocketCrashed (step (ClickCheck 0) (rocketView 10 ''doe''))"
proof -
  have wrong: "\<not> (isCorrect janeDoe (rocketView h ''doe'')
                  \<or> isNicknameMatch janeDoe (rocketView h ''doe''))" for h
    by (simp add: judge_rocketView)
  have reveal: "step ClickReveal (rocketView h ''doe'') = revealClick (rocketView h ''doe'')" for h
    by (simp add: step_def screen_rocketView rocketView_fields)
  have key: "step (KeyDown KeyR) (rocketView h ''doe'')
               = handleKeyDown KeyR (rocketView h ''doe'')" for h
    by (simp add: step_def keyHandlerInstalled_rocketView)
  have check: "step (ClickCheck 0) (rocketView h ''doe'')
                 = checkGuessOn janeDoe 0 (rocketView h ''doe'')" for h
    by (simp add: step_def screen_rocketView rocketView_fields runCheckGuess_rocketView_doe)
  show ?thesis
    unfolding reveal key check
    using checkGuessOn_wrong [OF wrong, of 50 0] checkGuessOn_wrong [OF wrong, of 10 0]
    by (simp add: revealClick_def handleKeyDown_def rocketView_fields feedback_checkGuessOn
        judge_rocketView)
qed

text \<open>
  Claim C5, amended. On the screen of an active session with no answer shown, the Reveal
  button and the r key do the same thing: they add one to \<open>stats.total\<close> and leave
  \<open>stats.correct\<close>, set the feedback to \<open>Incorrect\<close> and show the answer, which is what
  checking a wrong guess does to these fields. They apply no altitude penalty: in every
  game mode, Rocket included, the altitude and the crashed flag stay as they were.
\<close>

theorem reveal_effect:
  assumes "screen s = Active" and "\<not> showAnswer s" and "currentCoworker s = Some c"
  shows "step (KeyDown KeyR) s = step ClickReveal s \<and>
         stats (step ClickReveal s) =
           \<lparr>correct = correct (stats s), total' = total' (stats s) + 1\<rparr> \<and>
         feedback (step ClickReveal s) = Some Incorrect \<and>
         showAnswer (step ClickReveal s) \<and>
         rocketHeight (step ClickReveal s) = rocketHeight s \<and>
         rocketCrashed (step ClickReveal s) = rocketCrashed s \<and>
         gameMode (step ClickReveal s) = gameMode s \<and>
         (\<not> isCorrect c s \<and> \<not> isNicknameMatch c s \<longrightarrow>
            stats (runCheckGuess now s) = stats (step ClickReveal s) \<and>
            feedback (runCheckGuess now s) = feedback (step ClickReveal s) \<and>
            showAnswer (runCheckGuess now s) = showAnswer (step ClickReveal s))"
proof -
  have installed: "keyHandlerInstalled s"
    using assms by (auto simp: keyHandlerInstalled_def screen_def split: if_splits)
  have click: "step ClickReveal s = revealClick s"
    using assms by (simp add: step_def)
  have key: "step (KeyDown KeyR) s = revealClick s"
    using assms installed by (simp add: step_def handleKeyDown_def revealClick_def)
  have run: "runCheckGuess now s = checkGuessOn c now s"
    using assms by (simp add: runCheckGuess_def checkGuess_def)
  have shown: "showAnswer (checkGuessOn c now s)"
    by (simp add: checkGuessOn_def Let_def)
  have wrong: "stats (checkGuessOn c now s) =
      \<lparr>correct = correct (stats s), total' = total' (stats s) + 1\<rparr>"
    if "\<not> isCorrect c s \<and> \<not> isNicknameMatch c s"
    using checkGuessOn_wrong(1) [of c s now] that by simp
  show ?thesis
    unfolding click key run
    by (simp add: revealClick_def feedback_checkGuessOn shown wrong)
qed

theorem reveal_effect_witness:
  "screen (rocketView 50 ''doe'') = Active \<and> \<not> showAnswer (rocketView 50 ''doe'') \<and>
   currentCoworker (rocketView 50 ''doe'') = Some janeDoe \<and>
   step (KeyDown KeyR) (rocketView 50 ''doe'') = step ClickReveal (rocketView 50 ''doe'') \<and>
   stats (step ClickReveal (rocketView 50 ''doe'')) = \<lparr>correct = 0, total' = 1\<rparr> \<and>
   feedback (step ClickReveal (rocketView 50 ''doe'')) = Some Incorrect \<and>
   rocketHeight (step ClickReveal (rocketView 50 ''doe'')) = 50 \<and>
   \<not> rocketCrashed (step ClickReveal (rocketView 50 ''doe'')) \<and>
   stats (runCheckGuess 0 (rocketView 50 ''doe'')) = \<lparr>correct = 0, total' = 1\<rparr>"
  using reveal_effect [of "rocketView 50 ''doe''" janeDoe 0]
  by (simp add: screen_rocketView currentCoworker_rocketView rocketView_fields judge_rocketView)


section \<open>An empty guess\<close>

text \<open>
  Claim C9. With the empty string in the guess field, the Check button (which is then
  disabled) and the Enter key of the field leave the whole state as it is: \<open>checkGuess\<close>
  does not run, so nothing is counted, no feedback is set and nothing is thrown. (A guess
  of blanks only is not empty: it is checked, and counted as wrong.)
\<close>

theorem empty_guess_is_noop:
  assumes "guess s = []"
  shows "step (ClickCheck now) s = s \<and> step (GuessEnter now) s = s"
  using assms by (simp add: step_def)

theorem empty_guess_is_noop_witness:
  "guess (janeView First []) = [] \<and>
   step (ClickCheck 0) (janeView First []) = janeView First [] \<and>
   step (GuessEnter 0) (janeView First []) = janeView First [] \<and>
   stats (step (ClickCheck 0) (janeView First '' '')) = \<lparr>correct = 0, total' = 1\<rparr>"
proof -
  have checked: "stats (step (ClickCheck 0) (janeView First '' ''))
      = \<lparr>correct = 0, total' = 1\<rparr>"
    by code_simp
  show ?thesis
    using empty_guess_is_noop [of "janeView First []" 0] checked
    by (simp add: janeView_def)
qed

section \<open>The correction gate\<close>

lemma nextCard_fields:
  "feedback (nextCard s) = None" "showAnswer (nextCard s) = False"
  "currentIndex (nextCard s) = nextIndex (length (practiceCards s)) (currentIndex s)"
  by (simp_all add: nextCard_def resetCardState_def)

text \<open>
  Claim C7. While an answer is shown in an active session: typing into the correction
  field sets the gate to whether the typed text, trimmed and lowercased, equals the
  lowercased target name (the first word of the trimmed name at difficulty \<open>First\<close>, the
  whole trimmed name otherwise), whatever the gate was before. In Classic mode with
  \<open>Incorrect\<close> feedback, the Next Card button, the Enter key of the page and the Enter key
  of the correction field advance to the next card when the gate is true and do nothing
  when it is false; the skip link advances whatever the gate is. With \<open>Correct\<close> or
  \<open>Nickname\<close> feedback the Next Card button and the Enter key always advance.
\<close>

theorem correction_gate:
  assumes "screen s = Active" and "showAnswer s" and "currentCoworker s = Some c"
  shows "(\<forall>v. correctionComplete (handleCorrectionChange v s) \<longleftrightarrow>
              toLowerCase (trim v) = toLowerCase (getTargetName s)) \<and>
         getTargetName s =
           (if difficulty s = First then splitFirst (trim (name c)) else trim (name c)) \<and>
         (gameMode s = Classic \<and> feedback s = Some Incorrect \<longrightarrow>
            step ClickNext s = (if correctionComplete s then nextCard s else s) \<and>
            step (KeyDown Enter) s = (if correctionComplete s then nextCard s else s) \<and>
            step CorrectionEnter s = (if correctionComplete s then nextCard s else s) \<and>
            step ClickSkip s = nextCard s \<and>
            (\<forall>v. step (ChangeCorrection v) s = handleCorrectionChange v s)) \<and>
         (feedback s = Some Correct \<or> feedback s = Some Nickname \<longrightarrow>
            step ClickNext s = nextCard s \<and> step (KeyDown Enter) s = nextCard s) \<and>
         feedback (nextCard s) = None \<and> \<not> showAnswer (nextCard s) \<and>
         currentIndex (nextCard s) = nextIndex (length (practiceCards s)) (currentIndex s)"
proof -
  have installed: "keyHandlerInstalled s"
    using assms by (auto simp: keyHandlerInstalled_def screen_def split: if_splits)
  have gate: "correctionComplete (handleCorrectionChange v s) \<longleftrightarrow>
      toLowerCase (trim v) = toLowerCase (getTargetName s)" for v
    by (simp add: handleCorrectionChange_def checkCorrection_def Let_def trim_toLowerCase)
  have target: "getTargetName s =
      (if difficulty s = First then splitFirst (trim (name c)) else trim (name c))"
    using assms by (simp add: getTargetName_def Let_def)
  have blocked: "step ClickNext s = (if correctionComplete s then nextCard s else s) \<and>
      step (KeyDown Enter) s = (if correctionComplete s then nextCard s else s) \<and>
      step CorrectionEnter s = (if correctionComplete s then nextCard s else s) \<and>
      step ClickSkip s = nextCard s \<and>
      (\<forall>v. step (ChangeCorrection v) s = handleCorrectionChange v s)"
    if "gameMode s = Classic \<and> feedback s = Some Incorrect"
    using assms that installed
    by (simp add: step_def nextDisabled_def correctionShown_def handleKeyDown_def)
  have free: "step ClickNext s = nextCard s \<and> step (KeyDown Enter) s = nextCard s"
    if "feedback s = Some Correct \<or> feedback s = Some Nickname"
    using assms that installed
    by (auto simp: step_def nextDisabled_def handleKeyDown_def)
  show ?thesis
    using gate target blocked free by (simp add: nextCard_fields)
qed

lemma gateView_fields:
  "screen gateView = Active" "showAnswer gateView" "currentCoworker gateView = Some janeDoe"
  "gameMode gateView = Classic" "feedback gateView = Some Incorrect"
  "\<not> correctionComplete gateView" "difficulty gateView = First"
  "currentIndex gateView = Some 0" "practiceCards gateView = [janeDoe, johnRoe]"
  by (simp_all add: gateView_def initialView_def screen_def isSessionComplete_def
      currentCoworker_def at_index_def)

lemma gate_samples:
  "toLowerCase (trim ''jan'') = ''jan''" "toLowerCase (trim ''Jane'') = ''jane''"
  "toLowerCase (trim ''jane '') = ''jane''" "toLowerCase ''Jane'' = ''jane''"
  "splitFirst (trim ''Jane Doe'') = ''Jane''"
  by code_simp+

theorem correction_gate_witness:
  "screen gateView = Active \<and> showAnswer gateView \<and>
   currentCoworker gateView = Some janeDoe \<and> getTargetName gateView = ''Jane'' \<and>
   \<not> correctionComplete (step (ChangeCorrection ''jan'') gateView) \<and>
   correctionComplete (step (ChangeCorrection ''Jane'') gateView) \<and>
   correctionComplete (step (ChangeCorrection ''jane '') gateView) \<and>
   step ClickNext gateView = gateView \<and>
   step ClickNext (step (ChangeCorrection ''jan'') gateView)
     = step (ChangeCorrection ''jan'') gateView \<and>
   currentIndex (step ClickNext (step (ChangeCorrection ''jane '') gateView)) = Some 1 \<and>
   currentIndex (step ClickSkip gateView) = Some 1"
proof -
  let ?typed = "\<lambda>v. handleCorrectionChange v gateView"
  have typed_fields: "screen (?typed v) = Active" "showAnswer (?typed v)"
    "currentCoworker (?typed v) = Some janeDoe" "gameMode (?typed v) = Classic"
    "feedback (?typed v) = Some Incorrect" "currentIndex (?typed v) = Some 0"
    "practiceCards (?typed v) = [janeDoe, johnRoe]" for v
    by (simp_all add: handleCorrectionChange_def gateView_def initialView_def screen_def
        isSessionComplete_def currentCoworker_def at_index_def)
  have jane: "name janeDoe = ''Jane Doe''"
    by (simp add: janeDoe_def)
  note base = correction_gate [OF gateView_fields(1-3)]
  note jan = correction_gate [OF typed_fields(1-3), of "''jan''"]
  note jane_sp = correction_gate [OF typed_fields(1-3), of "''jane ''"]
  have "getTargetName gateView =
      (if difficulty gateView = First then splitFirst (trim (name janeDoe))
       else trim (name janeDoe))"
    using base by blast
  then have target: "getTargetName gateView = ''Jane''"
    by (simp add: gateView_fields jane gate_samples)
  have gate: "correctionComplete (?typed v) \<longleftrightarrow>
      toLowerCase (trim v) = toLowerCase (getTargetName gateView)" for v
    using base by blast
  have gates: "\<not> correctionComplete (?typed ''jan'')" "correctionComplete (?typed ''Jane'')"
    "correctionComplete (?typed ''jane '')"
    by (simp_all add: gate target gate_samples)
  have "gameMode gateView = Classic \<and> feedback gateView = Some Incorrect"
    by (simp add: gateView_fields)
  with base have typing: "step (ChangeCorrection v) gateView = ?typed v" for v
    by blast
  have mode: "gameMode gateView = Classic \<and> feedback gateView = Some Incorrect"
    by (simp add: gateView_fields)
  have mode_typed: "gameMode (?typed v) = Classic \<and> feedback (?typed v) = Some Incorrect" for v
    by (simp add: typed_fields)
  from base mode have "step ClickNext gateView =
      (if correctionComplete gateView then nextCard gateView else gateView)"
    by blast
  then have blocked: "step ClickNext gateView = gateView"
    by (simp add: gateView_fields)
  from base mode have skip: "step ClickSkip gateView = nextCard gateView"
    by blast
  from jan mode_typed have "step ClickNext (?typed ''jan'') =
      (if correctionComplete (?typed ''jan'') then nextCard (?typed ''jan'') else ?typed ''jan'')"
    by blast
  then have still_blocked: "step ClickNext (?typed ''jan'') = ?typed ''jan''"
    by (simp add: gates)
  from jane_sp mode_typed have "step ClickNext (?typed ''jane '') =
      (if correctionComplete (?typed ''jane '') then nextCard (?typed ''jane '')
       else ?typed ''jane '')"
    by blast
  then have passes: "step ClickNext (?typed ''jane '') = nextCard (?typed ''jane '')"
    by (simp add: gates)
  have moved: "currentIndex (nextCard gateView) = Some 1"
    "currentIndex (nextCard (?typed v)) = Some 1" for v
    by (simp_all add: nextCard_fields gateView_fields typed_fields nextIndex_def js_mod_def)
  show ?thesis
    by (simp add: gateView_fields target typing gates blocked still_blocked passes skip moved)
qed

section \<open>Statistics of a session\<close>

lemma length_fisherYates: "length (fisherYates rand k i xs) = length xs"
  by (induction i arbitrary: k xs) (simp_all add: swap_def)

lemma active_total_less:
  assumes "screen s = Active"
  shows "total' (stats s) < length (practiceCards s)"
  using assms by (auto simp: screen_def isSessionComplete_def split: if_splits)

lemma installed_total_less:
  assumes "keyHandlerInstalled s"
  shows "total' (stats s) < length (practiceCards s)"
proof -
  have "practiceCards s \<noteq> []"
    using assms
    by (auto simp: keyHandlerInstalled_def currentCoworker_def at_index_def Let_def
        split: option.splits)
  then show ?thesis
    using assms by (auto simp: keyHandlerInstalled_def isSessionComplete_def)
qed

lemma sessionInv_initialView: "sessionInv cards (initialView cards)"
  by (simp add: sessionInv_def initialView_def)

lemma sessionInv_checkGuessOn:
  assumes "sessionInv cards s" and "total' (stats s) < length (practiceCards s)"
  shows "sessionInv cards (checkGuessOn c now s)"
  using assms
  by (auto simp: sessionInv_def checkGuessOn_def Let_def startTimer_def rocketBoost_def
      rocketPenalty_def)

lemma sessionInv_runCheckGuess:
  assumes "sessionInv cards s" and "total' (stats s) < length (practiceCards s)"
  shows "sessionInv cards (runCheckGuess now s)"
  using assms sessionInv_checkGuessOn
  by (simp add: runCheckGuess_def checkGuess_def split: option.splits)

lemma sessionInv_revealClick:
  assumes "sessionInv cards s" and "total' (stats s) < length (practiceCards s)"
  shows "sessionInv cards (revealClick s)"
  using assms by (auto simp: sessionInv_def revealClick_def)

lemma sessionInv_nextCard:
  assumes "sessionInv cards s"
  shows "sessionInv cards (nextCard s)"
  using assms by (simp add: sessionInv_def nextCard_def resetCardState_def)

lemma sessionInv_handleKeyDown:
  assumes "sessionInv cards s" and "total' (stats s) < length (practiceCards s)"
  shows "sessionInv cards (handleKeyDown k s)"
proof -
  have reveal: "s\<lparr>showAnswer := True, feedback := Some Incorrect, lastGuess := [],
             correctionInput := [], correctionComplete := False,
             stats := (stats s)\<lparr>total' := total' (stats s) + 1\<rparr>\<rparr> = revealClick s"
    by (simp add: revealClick_def)
  show ?thesis
    unfolding handleKeyDown_def reveal
    using assms sessionInv_nextCard sessionInv_revealClick by simp
qed

lemma sessionInv_shuffleCards:
  assumes "sessionInv cards s"
  shows "sessionInv cards (shuffleCards rand s)"
  using assms
  by (simp add: sessionInv_def shuffleCards_def resetCardState_def Let_def length_fisherYates)

lemma sessionInv_restartPractice:
  assumes "practiceCards s = cards"
  shows "sessionInv cards (restartPractice rand s)"
proof -
  have "sessionInv cards
      (s\<lparr>stats := \<lparr>correct = 0, total' = 0\<rparr>, startTime := None, elapsedTime := 0,
         rocketHeight := 50, rocketCrashed := False, rocketBoosting := False,
         shuffledIndices := []\<rparr>)"
    using assms by (simp add: sessionInv_def)
  then have "sessionInv cards
      (shuffleCards rand
        (s\<lparr>stats := \<lparr>correct = 0, total' = 0\<rparr>, startTime := None, elapsedTime := 0,
           rocketHeight := 50, rocketCrashed := False, rocketBoosting := False,
           shuffledIndices := []\<rparr>))"
    by (rule sessionInv_shuffleCards)
  then show ?thesis
    by (simp add: restartPractice_def shuffleCards_def Let_def)
qed

lemma sessionInv_handleGameModeChange:
  assumes "sessionInv cards s"
  shows "sessionInv cards (handleGameModeChange m rand s)"
proof (cases "m = gameMode s")
  case True
  then show ?thesis using assms by (simp add: handleGameModeChange_def)
next
  case False
  have "practiceCards (s\<lparr>gameMode := m\<rparr>) = cards"
    using assms by (simp add: sessionInv_def)
  then show ?thesis
    using False sessionInv_restartPractice by (simp add: handleGameModeChange_def)
qed

lemma sessionInv_runTimeout:
  assumes "sessionInv cards s"
  shows "sessionInv cards (runTimeout t (s\<lparr>timers := ts\<rparr>))"
  using assms by (cases t) (simp_all add: sessionInv_def runTimeout_def)

lemma sessionInv_handleCorrectionChange:
  assumes "sessionInv cards s"
  shows "sessionInv cards (handleCorrectionChange v s)"
  using assms by (simp add: sessionInv_def handleCorrectionChange_def)

lemma sessionInv_handleRocketCrash:
  assumes "sessionInv cards s" and "screen s = Active" and "gameMode s = Rocket"
  shows "sessionInv cards (handleRocketCrash s)"
  using assms by (auto simp: sessionInv_def handleRocketCrash_def screen_def split: if_splits)

lemma sessionInv_step:
  assumes "sessionInv cards s"
  shows "sessionInv cards (step e s)"
proof (cases e)
  case (ChangeGuess v)
  then show ?thesis using assms by (simp add: step_def sessionInv_def)
next
  case (GuessEnter now)
  then show ?thesis
    using assms sessionInv_runCheckGuess active_total_less by (simp add: step_def)
next
  case (ClickCheck now)
  then show ?thesis
    using assms sessionInv_runCheckGuess active_total_less by (simp add: step_def)
next
  case ClickReveal
  then show ?thesis
    using assms sessionInv_revealClick active_total_less by (simp add: step_def)
next
  case (KeyDown k)
  then show ?thesis
    using assms sessionInv_handleKeyDown installed_total_less by (simp add: step_def)
next
  case (ChangeCorrection v)
  then show ?thesis
    using assms sessionInv_handleCorrectionChange by (simp add: step_def)
next
  case CorrectionEnter
  then show ?thesis using assms sessionInv_nextCard by (simp add: step_def)
next
  case ClickSkip
  then show ?thesis using assms sessionInv_nextCard by (simp add: step_def)
next
  case ClickNext
  then show ?thesis using assms sessionInv_nextCard by (simp add: step_def)
next
  case (ClickShuffle rand)
  then show ?thesis using assms sessionInv_shuffleCards by (simp add: step_def)
next
  case (ClickMode m rand)
  then show ?thesis using assms sessionInv_handleGameModeChange by (simp add: step_def)
next
  case (ChangeDifficulty d)
  then show ?thesis using assms by (simp add: step_def sessionInv_def)
next
  case (ClickTryAgain rand)
  have "practiceCards s = cards"
    using assms by (simp add: sessionInv_def)
  then have "sessionInv cards (restartPractice rand s)"
    by (rule sessionInv_restartPractice)
  then show ?thesis
    using assms ClickTryAgain by (simp add: step_def)
next
  case (Fire k)
  then show ?thesis using assms sessionInv_runTimeout by (simp add: step_def)
next
  case OnCrash
  then show ?thesis using assms sessionInv_handleRocketCrash by (simp add: step_def)
qed

lemma sessionInv_runEvents:
  assumes "sessionInv cards s"
  shows "sessionInv cards (runEvents evs s)"
  using assms by (induction evs arbitrary: s) (simp_all add: sessionInv_step)

lemma length_order:
  assumes "sessionInv cards s"
  shows "length (order s) = length cards"
  using assms by (auto simp: sessionInv_def order_def)

text \<open>
  Claim C2. In every state \<open>s\<close> that a practice session over \<open>cards\<close> reaches by any
  sequence of events, \<open>order s\<close> has as many entries as there are cards, and
  \<open>stats.correct \<le> stats.total \<le> len(order)\<close>. Completion is not stored: with
  \<open>complete\<close> standing for ``\<open>stats.total \<ge> len(order)\<close>, or Rocket mode and crashed'',
  \<open>isSessionComplete\<close> holds exactly when there is at least one card and \<open>complete\<close>
  holds. When \<open>complete\<close> holds without a crash, \<open>stats.total\<close> equals \<open>len(order)\<close>.
\<close>

theorem session_stats_invariant:
  "let s = runEvents evs (initialView cards);
       n = length (order s);
       complete = (total' (stats s) \<ge> n \<or> (gameMode s = Rocket \<and> rocketCrashed s))
   in n = length cards \<and>
      correct (stats s) \<le> total' (stats s) \<and> total' (stats s) \<le> n \<and>
      (complete \<and> \<not> rocketCrashed s \<longrightarrow> total' (stats s) = n) \<and>
      (isSessionComplete s \<longleftrightarrow> 0 < n \<and> complete)"
proof -
  define s where "s = runEvents evs (initialView cards)"
  have inv: "sessionInv cards s"
    unfolding s_def by (rule sessionInv_runEvents [OF sessionInv_initialView])
  have n: "length (order s) = length cards"
    by (rule length_order [OF inv])
  have cards: "practiceCards s = cards"
    using inv by (simp add: sessionInv_def)
  have le: "correct (stats s) \<le> total' (stats s)" "total' (stats s) \<le> length cards"
    using inv by (simp_all add: sessionInv_def)
  have crash: "rocketCrashed s \<Longrightarrow> gameMode s = Rocket \<and> 0 < length cards"
    using inv by (simp add: sessionInv_def)
  have complete: "isSessionComplete s \<longleftrightarrow>
      0 < length cards \<and>
      (total' (stats s) \<ge> length cards \<or> (gameMode s = Rocket \<and> rocketCrashed s))"
  proof (cases "cards = []")
    case True
    then show ?thesis
      using crash le by (auto simp: isSessionComplete_def cards)
  next
    case False
    then have "0 < length cards" by simp
    then show ?thesis
      using crash le unfolding isSessionComplete_def cards by linarith
  qed
  show ?thesis
    unfolding s_def [symmetric] Let_def n
    using le complete by auto
qed

theorem session_stats_invariant_witness:
  "let s = runEvents [ChangeGuess ''jane'', ClickCheck 0, ClickNext, ClickReveal]
             (initialView [janeDoe, johnRoe])
   in stats s = \<lparr>correct = 1, total' = 2\<rparr> \<and> length (order s) = 2 \<and>
      isSessionComplete s \<and> \<not> rocketCrashed s"
  using session_stats_invariant
    [of "[ChangeGuess ''jane'', ClickCheck 0, ClickNext, ClickReveal]" "[janeDoe, johnRoe]"]
  by code_simp

section \<open>Shuffling\<close>

lemma randomIndex_le:
  assumes "0 \<le> x" and "x < 1"
  shows "randomIndex x i \<le> i"
proof -
  have "x * real (i + 1) < real (i + 1)"
    using assms by simp
  then have "\<lfloor>x * real (i + 1)\<rfloor> < int (i + 1)"
    by (simp add: floor_less_iff)
  then show ?thesis
    by (simp add: randomIndex_def)
qed

lemma mset_swap_indices:
  assumes "i < length xs" and "j < length xs"
  shows "mset (swap i j xs) = mset xs"
  unfolding swap_def using mset_swap [OF assms(2) assms(1)] by simp

lemma length_swap: "length (swap i j xs) = length xs"
  by (simp add: swap_def)

lemma mset_fisherYates:
  assumes "\<forall>k. 0 \<le> rand k \<and> rand k < 1" and "i < length xs"
  shows "mset (fisherYates rand k i xs) = mset xs"
  using assms(2)
proof (induction i arbitrary: k xs)
  case 0
  then show ?case by simp
next
  case (Suc i)
  have "randomIndex (rand k) (Suc i) \<le> Suc i"
    using assms(1) by (simp add: randomIndex_le)
  then have j: "randomIndex (rand k) (Suc i) < length xs"
    using Suc.prems by simp
  have "mset (fisherYates rand (Suc k) i (swap (Suc i) (randomIndex (rand k) (Suc i)) xs))
      = mset (swap (Suc i) (randomIndex (rand k) (Suc i)) xs)"
    using Suc.prems by (intro Suc.IH) (simp add: length_swap)
  also have "\<dots> = mset xs"
    using Suc.prems j by (rule mset_swap_indices)
  finally show ?case by simp
qed

lemma mset_shuffled:
  assumes "\<forall>k. 0 \<le> rand k \<and> rand k < 1"
  shows "mset (fisherYates rand 0 (n - 1) [0..<n]) = mset [0..<n]"
proof (cases n)
  case 0
  then show ?thesis by simp
next
  case (Suc m)
  then have "n - 1 < length [0..<n]" by simp
  then show ?thesis by (rule mset_fisherYates [OF assms])
qed

text \<open>
  Claim C8. Whatever values in \<open>[0, 1)\<close> the calls of \<open>Math.random()\<close> return, and for
  every number \<open>n\<close> of practice cards, \<open>shuffleCards\<close> stores an order that, sorted, is
  \<open>[0..<n]\<close>: the loop runs from the last index down to 1 and swaps the entry at \<open>i\<close>
  with the entry at an index that is at most \<open>i\<close>. It sets the cursor to 0, clears the
  feedback and the guess and hides the answer.
\<close>

theorem shuffleCards_permutation:
  assumes "\<forall>k. 0 \<le> rand k \<and> rand k < 1"
  shows "sort (shuffledIndices (shuffleCards rand s)) = [0..<length (practiceCards s)] \<and>
         shuffledIndices (shuffleCards rand s) =
           fisherYates rand 0 (length (practiceCards s) - 1) [0..<length (practiceCards s)] \<and>
         (\<forall>k i. randomIndex (rand k) i \<le> i) \<and>
         currentIndex (shuffleCards rand s) = Some 0 \<and>
         feedback (shuffleCards rand s) = None \<and>
         guess (shuffleCards rand s) = [] \<and>
         \<not> showAnswer (shuffleCards rand s)"
proof -
  let ?n = "length (practiceCards s)"
  have stored: "shuffledIndices (shuffleCards rand s) = fisherYates rand 0 (?n - 1) [0..<?n]"
    by (simp add: shuffleCards_def resetCardState_def Let_def)
  have "mset (fisherYates rand 0 (?n - 1) [0..<?n]) = mset [0..<?n]"
    by (rule mset_shuffled [OF assms])
  then have "sort (fisherYates rand 0 (?n - 1) [0..<?n]) = [0..<?n]"
    by (intro properties_for_sort) simp_all
  moreover have "\<forall>k i. randomIndex (rand k) i \<le> i"
    using assms by (simp add: randomIndex_le)
  ultimately show ?thesis
    by (simp add: stored) (simp add: shuffleCards_def resetCardState_def Let_def)
qed

theorem shuffleCards_permutation_witness:
  "(\<forall>k::nat. (0::real) \<le> 1 / 2 \<and> (1 / 2 :: real) < 1) \<and>
   shuffledIndices (shuffleCards (\<lambda>k. 1 / 2) (initialView [janeDoe, johnRoe, janeDoe]))
     = [0, 2, 1] \<and>
   sort (shuffledIndices (shuffleCards (\<lambda>k. 1 / 2) (initialView [janeDoe, johnRoe, janeDoe])))
     = [0, 1, 2] \<and>
   currentIndex (shuffleCards (\<lambda>k. 1 / 2) (initialView [janeDoe, johnRoe, janeDoe])) = Some 0"
proof -
  have range: "\<forall>k::nat. 0 \<le> (\<lambda>k. 1 / 2 :: real) k \<and> (\<lambda>k. 1 / 2 :: real) k < 1"
    by simp
  have order: "shuffledIndices
      (shuffleCards (\<lambda>k. 1 / 2) (initialView [janeDoe, johnRoe, janeDoe])) = [0, 2, 1]"
    by code_simp
  have cards: "[0..<length (practiceCards (initialView [janeDoe, johnRoe, janeDoe]))] = [0, 1, 2]"
    by code_simp
  note perm = shuffleCards_permutation [OF range, of "initialView [janeDoe, johnRoe, janeDoe]"]
  from perm have sorted: "sort (shuffledIndices
      (shuffleCards (\<lambda>k. 1 / 2) (initialView [janeDoe, johnRoe, janeDoe])))
      = [0..<length (practiceCards (initialView [janeDoe, johnRoe, janeDoe]))]"
    by blast
  from perm have cursor: "currentIndex
      (shuffleCards (\<lambda>k. 1 / 2) (initialView [janeDoe, johnRoe, janeDoe])) = Some 0"
    by blast
  show ?thesis
    by (intro conjI) (simp, rule order, rule sorted [unfolded cards], rule cursor)
qed

section \<open>The animation loop\<close>

lemma clampDelta_pos: "0 < e \<Longrightarrow> 0 < clampDelta e"
  by (simp add: clampDelta_def)

lemma render_fields:
  "lastBoosting (fst (render p e r)) = boosting p"
  "currentHeight (fst (render p e r)) =
     fst (applyBoost p (lastBoosting r) (fst (applyGravity p (clampDelta e) (currentHeight r))))"
  "crashCalls (snd (render p e r)) = snd (applyGravity p (clampDelta e) (currentHeight r))"
  "boostApplied (snd (render p e r)) =
     snd (applyBoost p (lastBoosting r) (fst (applyGravity p (clampDelta e) (currentHeight r))))"
  by (simp_all add: render_def Let_def split: prod.splits)

lemma renders_Cons:
  "renders ((p, e) # ts) (r, n) =
     renders ts (fst (render p e r),
                 n + (case boostApplied (snd (render p e r)) of None \<Rightarrow> 0 | Some a \<Rightarrow> 1))"
  by (simp add: case_prod_beta)

lemma frames_Cons:
  "frames (e # es) (vr, n) = frames es (fst (frame e vr), n + crashCalls (snd (frame e vr)))"
  by (simp add: case_prod_beta)

lemma renders_held:
  assumes "lastBoosting r" and "\<forall>t \<in> set ts. boosting (fst t)"
  shows "snd (renders ts (r, n)) = n \<and> lastBoosting (fst (renders ts (r, n)))"
  using assms
proof (induction ts arbitrary: r n)
  case Nil
  then show ?case by simp
next
  case (Cons t ts)
  obtain p e where t: "t = (p, e)" by (cases t)
  have b: "boosting p" using Cons.prems t by simp
  have none: "boostApplied (snd (render p e r)) = None"
    using Cons.prems(1) by (simp add: render_fields applyBoost_def)
  have last: "lastBoosting (fst (render p e r))"
    using b by (simp add: render_fields)
  have rest: "\<forall>t \<in> set ts. boosting (fst t)"
    using Cons.prems by simp
  show ?case
    unfolding t renders_Cons using Cons.IH [OF last rest, of n] none by simp
qed

lemma boostMultiplier_ends:
  "boostMultiplier 0 = BOOST_MULTIPLIER_MAX" "boostMultiplier 100 = BOOST_MULTIPLIER_MIN"
  by (simp_all add: boostMultiplier_def)

text \<open>
  Claim C3. Let the canvas run consecutive ticks, all with the \<open>boosting\<close> prop true,
  after a tick on which it was false. The first of them applies the boost: its amount is
  \<open>BASE_BOOST\<close> times the multiplier at the altitude \<open>g\<close> that gravity leaves on this
  tick, and the new altitude is \<open>g\<close> plus that amount, at most 100. The multiplier is
  linear in the altitude, \<open>BOOST_MULTIPLIER_MAX\<close> at 0 and \<open>BOOST_MULTIPLIER_MIN\<close> at
  100. However many ticks follow with \<open>boosting\<close> still true, none of them applies a
  boost: on each the altitude is what gravity leaves, and the boosts counted over the
  whole run are exactly one.
\<close>

theorem boost_fires_once:
  assumes "\<not> lastBoosting r" and "boosting p0" and "\<forall>t \<in> set ts. boosting (fst t)"
    and "boosting p"
  shows "let g = fst (applyGravity p0 (clampDelta e0) (currentHeight r));
             r1 = fst (render p0 e0 r);
             held = renders ((p0, e0) # ts) (r, 0);
             g' = fst (applyGravity p (clampDelta e) (currentHeight (fst held)))
         in boostApplied (snd (render p0 e0 r)) = Some (BASE_BOOST * boostMultiplier g) \<and>
            currentHeight r1 = min 100 (g + BASE_BOOST * boostMultiplier g) \<and>
            currentHeight r1 \<le> 100 \<and>
            snd held = 1 \<and>
            boostApplied (snd (render p e (fst held))) = None \<and>
            currentHeight (fst (render p e (fst held))) = g' \<and>
            snd (renders (((p0, e0) # ts) @ [(p, e)]) (r, 0)) = 1 \<and>
            boostMultiplier 0 = BOOST_MULTIPLIER_MAX \<and>
            boostMultiplier 100 = BOOST_MULTIPLIER_MIN \<and>
            boostMultiplier h =
              (1 - h / 100) * BOOST_MULTIPLIER_MAX + (h / 100) * BOOST_MULTIPLIER_MIN"
proof -
  let ?g = "fst (applyGravity p0 (clampDelta e0) (currentHeight r))"
  let ?r1 = "fst (render p0 e0 r)"
  have fired: "boostApplied (snd (render p0 e0 r)) = Some (BASE_BOOST * boostMultiplier ?g)"
    using assms(1,2) by (simp add: render_fields applyBoost_def Let_def)
  have height: "currentHeight ?r1 = min 100 (?g + BASE_BOOST * boostMultiplier ?g)"
    using assms(1,2) by (simp add: render_fields applyBoost_def Let_def)
  have last1: "lastBoosting ?r1"
    using assms(2) by (simp add: render_fields)
  have first: "renders ((p0, e0) # ts) (r, 0) = renders ts (?r1, 1)"
    unfolding renders_Cons fired by simp
  have held: "snd (renders ts (?r1, 1)) = 1" "lastBoosting (fst (renders ts (?r1, 1)))"
    using renders_held [OF last1 assms(3), of 1] by simp_all
  let ?rn = "fst (renders ts (?r1, 1))"
  have none: "boostApplied (snd (render p e ?rn)) = None"
    using held(2) by (simp add: render_fields applyBoost_def)
  have same: "currentHeight (fst (render p e ?rn)) =
      fst (applyGravity p (clampDelta e) (currentHeight ?rn))"
    using held(2) by (simp add: render_fields applyBoost_def)
  have all: "\<forall>t \<in> set (ts @ [(p, e)]). boosting (fst t)"
    using assms(3,4) by simp
  have total: "snd (renders (((p0, e0) # ts) @ [(p, e)]) (r, 0)) = 1"
    using renders_held [OF last1 all, of 1] by (simp add: renders_Cons fired del: renders.simps)
  have lin: "boostMultiplier h =
      (1 - h / 100) * BOOST_MULTIPLIER_MAX + (h / 100) * BOOST_MULTIPLIER_MIN"
    by (simp add: boostMultiplier_def BOOST_MULTIPLIER_MAX_def BOOST_MULTIPLIER_MIN_def
        field_simps)
  show ?thesis
    unfolding Let_def first
    using fired height held(1) none same total lin by (simp add: boostMultiplier_ends)
qed

theorem boost_fires_once_witness:
  "\<not> lastBoosting (mountRocket 50) \<and> boosting boostProps \<and>
   boostApplied (snd (render boostProps (16 / 1000) (mountRocket 50))) = Some 35 \<and>
   currentHeight (fst (render boostProps (16 / 1000) (mountRocket 50))) = 85 \<and>
   snd (renders [(boostProps, 16 / 1000), (boostProps, 16 / 1000), (boostProps, 16 / 1000)]
          (mountRocket 50, 0)) = 1 \<and>
   snd (renders [(boostProps, 16 / 1000), (boostProps, 16 / 1000), (boostProps, 16 / 1000),
                 (boostProps, 16 / 1000)] (mountRocket 50, 0)) = 1 \<and>
   boostMultiplier 50 = 7 / 4"
proof -
  have h1: "\<not> lastBoosting (mountRocket 50)"
    by (simp add: mountRocket_def)
  have h2: "boosting boostProps"
    by (simp add: boostProps_def)
  have h3: "\<forall>t \<in> set [(boostProps, 16 / 1000), (boostProps, 16 / 1000)]. boosting (fst t)"
    by (simp add: h2)
  note all = boost_fires_once [OF h1 h2 h3 h2, of "16 / 1000" "16 / 1000" 50, unfolded Let_def]
  have g: "fst (applyGravity boostProps (clampDelta (16 / 1000)) (currentHeight (mountRocket 50)))
      = 50"
    by code_simp
  have amount: "BASE_BOOST * boostMultiplier 50 = 35"
    by code_simp
  have fired: "boostApplied (snd (render boostProps (16 / 1000) (mountRocket 50))) = Some 35"
    using all [THEN conjunct1] by (simp only: g amount)
  have height: "currentHeight (fst (render boostProps (16 / 1000) (mountRocket 50))) = 85"
    using all [THEN conjunct2, THEN conjunct1] by (simp only: g amount)
  have once: "snd (renders [(boostProps, 16 / 1000), (boostProps, 16 / 1000),
      (boostProps, 16 / 1000)] (mountRocket 50, 0)) = 1"
    by (rule all [THEN conjunct2, THEN conjunct2, THEN conjunct2, THEN conjunct1])
  have still_once: "snd (renders [(boostProps, 16 / 1000), (boostProps, 16 / 1000),
      (boostProps, 16 / 1000), (boostProps, 16 / 1000)] (mountRocket 50, 0)) = 1"
    using all [THEN conjunct2, THEN conjunct2, THEN conjunct2, THEN conjunct2, THEN conjunct2,
        THEN conjunct2, THEN conjunct1]
    by (simp only: append.simps)
  have mult: "boostMultiplier 50 = 7 / 4"
    using all [THEN conjunct2, THEN conjunct2, THEN conjunct2, THEN conjunct2, THEN conjunct2,
        THEN conjunct2, THEN conjunct2, THEN conjunct2, THEN conjunct2]
    by (simp add: BOOST_MULTIPLIER_MAX_def BOOST_MULTIPLIER_MIN_def)
  show ?thesis
    using h1 h2 fired height once still_once mult by blast
qed


section \<open>Gravity and the crash\<close>

lemma frame_parts:
  "fst (fst (frame e (s, r))) =
     (if crashCalls (snd (render (propsOf s) e r)) > 0 then handleRocketCrash s else s)"
  "snd (frame e (s, r)) = snd (render (propsOf s) e r)"
  "currentHeight (snd (fst (frame e (s, r)))) =
     (let s' = (if crashCalls (snd (render (propsOf s) e r)) > 0 then handleRocketCrash s else s);
          r' = fst (render (propsOf s) e r)
      in currentHeight (if rocketHeight s' \<noteq> rocketHeight s then resetEffect (rocketHeight s') r'
                        else r'))"
  by (simp_all add: frame_def Let_def case_prod_beta)

lemma resetEffect_crash: "resetEffect 0 r = r"
  by (simp add: resetEffect_def STARTING_ALTITUDE_def)

lemma frame_decay_step:
  assumes "gravityActive s" and "\<not> rocketBoosting s" and "0 < currentHeight r" and "0 < e"
  shows "currentHeight (snd (fst (frame e (s, r)))) < currentHeight r"
    and "0 \<le> currentHeight (snd (fst (frame e (s, r))))"
    and "crashCalls (snd (frame e (s, r))) =
           (if currentHeight (snd (fst (frame e (s, r)))) = 0 then 1 else 0)"
    and "rocketCrashed (fst (fst (frame e (s, r)))) \<longleftrightarrow>
           currentHeight (snd (fst (frame e (s, r)))) = 0"
    and "\<not> rocketBoosting (fst (fst (frame e (s, r))))"
    and "0 < currentHeight (snd (fst (frame e (s, r)))) \<Longrightarrow> gravityActive (fst (fst (frame e (s, r))))"
proof -
  have dt: "0 < clampDelta e"
    using assms(4) by (rule clampDelta_pos)
  have live: "\<not> rocketCrashed s"
    using assms(1) by (simp add: gravityActive_def)
  let ?h = "currentHeight r - GRAVITY_RATE * clampDelta e"
  have lt: "?h < currentHeight r"
    using dt by (simp add: GRAVITY_RATE_def)
  have grav: "applyGravity (propsOf s) (clampDelta e) (currentHeight r) =
      (if ?h \<le> 0 then (0, 1) else (?h, 0))"
    using assms(1) live by (simp add: applyGravity_def propsOf_def Let_def)
  have noboost: "applyBoost (propsOf s) b h = (h, None)" for b h
    using assms(2) by (simp add: applyBoost_def propsOf_def)
  have calls: "crashCalls (snd (render (propsOf s) e r)) = (if ?h \<le> 0 then 1 else 0)"
    by (simp add: render_fields grav)
  have rh: "currentHeight (fst (render (propsOf s) e r)) = (if ?h \<le> 0 then 0 else ?h)"
    by (simp add: render_fields grav noboost)
  have view: "fst (fst (frame e (s, r))) = (if ?h \<le> 0 then handleRocketCrash s else s)"
    by (simp add: frame_parts calls)
  have height: "currentHeight (snd (fst (frame e (s, r)))) = (if ?h \<le> 0 then 0 else ?h)"
    by (simp add: frame_parts calls rh Let_def handleRocketCrash_def resetEffect_crash)
  show "currentHeight (snd (fst (frame e (s, r)))) < currentHeight r"
    using lt assms(3) by (simp add: height)
  show "0 \<le> currentHeight (snd (fst (frame e (s, r))))"
    by (simp add: height)
  show "crashCalls (snd (frame e (s, r))) =
           (if currentHeight (snd (fst (frame e (s, r)))) = 0 then 1 else 0)"
    by (simp add: frame_parts(2) calls height)
  show "rocketCrashed (fst (fst (frame e (s, r)))) \<longleftrightarrow>
           currentHeight (snd (fst (frame e (s, r)))) = 0"
    using live by (simp add: view height handleRocketCrash_def)
  show "\<not> rocketBoosting (fst (fst (frame e (s, r))))"
    using assms(2) by (simp add: view handleRocketCrash_def)
  show "gravityActive (fst (fst (frame e (s, r))))"
    if "0 < currentHeight (snd (fst (frame e (s, r))))"
    using that assms(1) by (simp add: view height split: if_splits)
qed

lemma frame_crashed_step:
  assumes "rocketCrashed s" and "\<not> rocketBoosting s" and "currentHeight r = 0"
  shows "fst (fst (frame e (s, r))) = s"
    and "currentHeight (snd (fst (frame e (s, r)))) = 0"
    and "crashCalls (snd (frame e (s, r))) = 0"
proof -
  have grav: "applyGravity (propsOf s) d h = (h, 0)" for d h
    using assms(1) by (simp add: applyGravity_def propsOf_def)
  have noboost: "applyBoost (propsOf s) b h = (h, None)" for b h
    using assms(2) by (simp add: applyBoost_def propsOf_def)
  have calls: "crashCalls (snd (render (propsOf s) e r)) = 0"
    by (simp add: render_fields grav)
  show "fst (fst (frame e (s, r))) = s"
    by (simp add: frame_parts calls)
  show "currentHeight (snd (fst (frame e (s, r)))) = 0"
    using assms(3) by (simp add: frame_parts calls Let_def render_fields grav noboost)
  show "crashCalls (snd (frame e (s, r))) = 0"
    by (simp add: frame_parts calls)
qed

lemma frames_decay:
  assumes "\<not> rocketBoosting s" and "\<forall>e \<in> set es. 0 < e"
    and "(gravityActive s \<and> 0 < currentHeight r \<and> n = 0)
         \<or> (rocketCrashed s \<and> currentHeight r = 0 \<and> n = 1)"
  shows "\<not> rocketBoosting (fst (fst (frames es ((s, r), n)))) \<and>
         ((gravityActive (fst (fst (frames es ((s, r), n)))) \<and>
           0 < currentHeight (snd (fst (frames es ((s, r), n)))) \<and>
           snd (frames es ((s, r), n)) = 0)
          \<or> (rocketCrashed (fst (fst (frames es ((s, r), n)))) \<and>
              currentHeight (snd (fst (frames es ((s, r), n)))) = 0 \<and>
              snd (frames es ((s, r), n)) = 1))"
  using assms
proof (induction es arbitrary: s r n)
  case Nil
  then show ?case by simp
next
  case (Cons e es)
  obtain s' r' where sr: "fst (frame e (s, r)) = (s', r')"
    by (cases "fst (frame e (s, r))")
  have e: "0 < e" and rest: "\<forall>x \<in> set es. 0 < x"
    using Cons.prems(2) by simp_all
  have step: "\<not> rocketBoosting s' \<and>
      ((gravityActive s' \<and> 0 < currentHeight r' \<and> n + crashCalls (snd (frame e (s, r))) = 0)
       \<or> (rocketCrashed s' \<and> currentHeight r' = 0 \<and> n + crashCalls (snd (frame e (s, r))) = 1))"
  proof (cases "gravityActive s \<and> 0 < currentHeight r \<and> n = 0")
    case True
    then have ga: "gravityActive s" and pos: "0 < currentHeight r" and n: "n = 0"
      by simp_all
    note d = frame_decay_step [OF ga Cons.prems(1) pos e]
    show ?thesis
      using d(2) d(3) d(4) d(5) d(6) n
      by (cases "currentHeight r' = 0") (simp_all add: sr less_le)
  next
    case False
    then have c: "rocketCrashed s" "currentHeight r = 0" "n = 1"
      using Cons.prems(3) by auto
    show ?thesis
      using frame_crashed_step [OF c(1) Cons.prems(1) c(2), of e] c Cons.prems(1) sr by simp
  qed
  show ?case
    unfolding frames_Cons sr
    using Cons.IH [of s' r' "n + crashCalls (snd (frame e (s, r)))"] step rest by blast
qed


text \<open>
  Claim C4. Take the canvas inside PracticeView with gravity active, the boosting flag
  false and a positive altitude, and let any number of frames pass, each after a
  positive time. Then on the next frame after a positive time: while the altitude is
  positive it strictly decreases and never goes below 0; \<open>onCrash\<close> is called on exactly
  the frame that brings a positive altitude to 0; \<open>rocketCrashed\<close> is true exactly when
  the altitude is 0; once the altitude is 0 it stays 0 and \<open>onCrash\<close> is not called again,
  so that the calls counted over the whole run are one if the altitude has reached 0
  and none otherwise.
\<close>

theorem gravity_decay_and_crash:
  assumes "gravityActive s" and "\<not> rocketBoosting s" and "0 < currentHeight r"
    and "\<forall>x \<in> set es. 0 < x" and "0 < e"
  shows "let before = frames es ((s, r), 0);
             s1 = fst (fst before); r1 = snd (fst before);
             after = frame e (s1, r1);
             s2 = fst (fst after); r2 = snd (fst after)
         in 0 \<le> currentHeight r1 \<and>
            (0 < currentHeight r1 \<longrightarrow>
               currentHeight r2 < currentHeight r1 \<and> 0 \<le> currentHeight r2) \<and>
            (currentHeight r1 = 0 \<longrightarrow> currentHeight r2 = 0) \<and>
            crashCalls (snd after) =
              (if 0 < currentHeight r1 \<and> currentHeight r2 = 0 then 1 else 0) \<and>
            (rocketCrashed s1 \<longleftrightarrow> currentHeight r1 = 0) \<and>
            (rocketCrashed s2 \<longleftrightarrow> currentHeight r2 = 0) \<and>
            snd before + crashCalls (snd after) = (if currentHeight r2 = 0 then 1 else 0)"
proof -
  define s1 where "s1 = fst (fst (frames es ((s, r), 0)))"
  define r1 where "r1 = snd (fst (frames es ((s, r), 0)))"
  define n1 where "n1 = snd (frames es ((s, r), 0))"
  have start: "(gravityActive s \<and> 0 < currentHeight r \<and> (0::nat) = 0)
      \<or> (rocketCrashed s \<and> currentHeight r = 0 \<and> (0::nat) = 1)"
    using assms(1,3) by simp
  have inv: "\<not> rocketBoosting s1 \<and>
      ((gravityActive s1 \<and> 0 < currentHeight r1 \<and> n1 = 0)
       \<or> (rocketCrashed s1 \<and> currentHeight r1 = 0 \<and> n1 = 1))"
    unfolding s1_def r1_def n1_def by (rule frames_decay [OF assms(2) assms(4) start])
  then have calm: "\<not> rocketBoosting s1" by simp
  have main: "0 \<le> currentHeight r1 \<and>
      (0 < currentHeight r1 \<longrightarrow>
         currentHeight (snd (fst (frame e (s1, r1)))) < currentHeight r1 \<and>
         0 \<le> currentHeight (snd (fst (frame e (s1, r1))))) \<and>
      (currentHeight r1 = 0 \<longrightarrow> currentHeight (snd (fst (frame e (s1, r1)))) = 0) \<and>
      crashCalls (snd (frame e (s1, r1))) =
        (if 0 < currentHeight r1 \<and> currentHeight (snd (fst (frame e (s1, r1)))) = 0
         then 1 else 0) \<and>
      (rocketCrashed s1 \<longleftrightarrow> currentHeight r1 = 0) \<and>
      (rocketCrashed (fst (fst (frame e (s1, r1)))) \<longleftrightarrow>
         currentHeight (snd (fst (frame e (s1, r1)))) = 0) \<and>
      n1 + crashCalls (snd (frame e (s1, r1))) =
        (if currentHeight (snd (fst (frame e (s1, r1)))) = 0 then 1 else 0)"
  proof (cases "gravityActive s1 \<and> 0 < currentHeight r1 \<and> n1 = 0")
    case True
    then have ga: "gravityActive s1" and pos: "0 < currentHeight r1" and n: "n1 = 0"
      by simp_all
    have live: "\<not> rocketCrashed s1"
      using ga by (simp add: gravityActive_def)
    note d = frame_decay_step [OF ga calm pos assms(5)]
    show ?thesis
      using d(1) d(2) d(3) d(4) pos n live by simp
  next
    case False
    then have c: "rocketCrashed s1" "currentHeight r1 = 0" "n1 = 1"
      using inv by auto
    show ?thesis
      using frame_crashed_step [OF c(1) calm c(2), of e] c by simp
  qed
  show ?thesis
    unfolding Let_def s1_def [symmetric] r1_def [symmetric] n1_def [symmetric]
    by (rule main)
qed

theorem gravity_decay_and_crash_witness:
  "gravityActive (rocketView 50 []) \<and> \<not> rocketBoosting (rocketView 50 []) \<and>
   0 < currentHeight lowRocket \<and>
   currentHeight (snd (fst (frames [1 / 10] ((rocketView 50 [], lowRocket), 0)))) = 1 / 5 \<and>
   currentHeight (snd (fst (frames [1 / 10, 1 / 10] ((rocketView 50 [], lowRocket), 0)))) = 0 \<and>
   rocketCrashed (fst (fst (frames [1 / 10, 1 / 10] ((rocketView 50 [], lowRocket), 0)))) \<and>
   snd (frames [1 / 10] ((rocketView 50 [], lowRocket), 0)) = 0 \<and>
   snd (frames [1 / 10, 1 / 10] ((rocketView 50 [], lowRocket), 0)) = 1 \<and>
   snd (frames [1 / 10, 1 / 10, 1 / 10, 1 / 10] ((rocketView 50 [], lowRocket), 0)) = 1"
proof -
  have h1: "gravityActive (rocketView 50 [])"
    by code_simp
  have h2: "\<not> rocketBoosting (rocketView 50 [])"
    by (simp add: rocketView_fields)
  have h3: "0 < currentHeight lowRocket"
    by (simp add: lowRocket_def)
  have h4: "\<forall>x \<in> set [1 / 10 :: real]. 0 < x" and h4': "\<forall>x \<in> set [1 / 10, 1 / 10 :: real]. 0 < x"
    by simp_all
  have h5: "0 < (1 / 10 :: real)"
    by simp
  show ?thesis
    using gravity_decay_and_crash [OF h1 h2 h3 h4 h5] gravity_decay_and_crash [OF h1 h2 h3 h4' h5]
    by code_simp
qed


section \<open>Visual smoothing\<close>

text \<open>
  On claim C6. The visual altitude moves by \<open>heightDiff * lerpSpeed * deltaTime\<close>, with
  \<open>LERP_SPEED_UP\<close> = 8 when the actual altitude is above it and \<open>LERP_SPEED_DOWN\<close> = 12
  when it is below: from 50, in a tick of 0.016 s, a target 10 above moves it up by 1.28
  and a target 10 below moves it down by 1.92. Falling is the faster direction.
\<close>

theorem visual_smoothing_speeds:
  "LERP_SPEED_UP = 8 \<and> LERP_SPEED_DOWN = 12 \<and>
   smoothVisual 60 50 (16 / 1000) = 50 + 128 / 100 \<and>
   smoothVisual 40 50 (16 / 1000) = 50 - 192 / 100 \<and>
   \<bar>smoothVisual 60 50 (16 / 1000) - 50\<bar> < \<bar>smoothVisual 40 50 (16 / 1000) - 50\<bar>"
  by (simp add: smoothVisual_def LERP_SPEED_UP_def LERP_SPEED_DOWN_def Let_def)

end
